theory Spec2Isabelle
  imports Main
begin

section \<open>JavaScript values\<close>

text \<open>
  Option values are JavaScript values. Numbers are modelled by the integers together with
  \<open>NaN\<close>: the code below only tests numbers for truthiness (zero or not) and for
  \<open>NaN\<close>, and converts them to strings; fractional and infinite numbers are outside the
  model. An object is its list of properties, an array its list of elements.
\<close>

datatype jsval =
    Undefined
  | Null
  | Boolean bool
  | Num int
  | NaN
  | Str string
  | Arr "jsval list"
  | Obj "(string \<times> jsval) list"

text \<open>JavaScript's \<open>ToBoolean\<close>: what \<open>a && b\<close> and \<open>a || b\<close> test.\<close>

fun truthy :: "jsval \<Rightarrow> bool" where
  "truthy Undefined = False"
| "truthy Null = False"
| "truthy (Boolean b) = b"
| "truthy (Num n) = (n \<noteq> 0)"
| "truthy NaN = False"
| "truthy (Str s) = (s \<noteq> [])"
| "truthy (Arr xs) = True"
| "truthy (Obj kvs) = True"

text \<open>\<open>v == null\<close>: true of \<open>null\<close> and \<open>undefined\<close> only.\<close>

fun nullish :: "jsval \<Rightarrow> bool" where
  "nullish Undefined = True"
| "nullish Null = True"
| "nullish v = False"

text \<open>\<open>a && b\<close> evaluates to \<open>a\<close> when \<open>a\<close> is falsy, to \<open>b\<close> otherwise.\<close>

definition jsAnd :: "jsval \<Rightarrow> jsval \<Rightarrow> jsval" where
  "jsAnd a b = (if truthy a then b else a)"

text \<open>\<open>a[i]\<close> on an array: \<open>undefined\<close> out of range. On the other values the code
  never indexes (\<open>normalize\<close> always returns an array); the model gives \<open>undefined\<close>.\<close>

fun jsIndex :: "jsval \<Rightarrow> nat \<Rightarrow> jsval" where
  "jsIndex (Arr xs) i = (if i < length xs then xs ! i else Undefined)"
| "jsIndex v i = Undefined"

text \<open>\<open>obj[key]\<close> on an object: \<open>undefined\<close> when the property is missing.\<close>

fun jsProp :: "jsval \<Rightarrow> string \<Rightarrow> jsval" where
  "jsProp (Obj kvs) k = (case map_of kvs k of Some v \<Rightarrow> v | None \<Rightarrow> Undefined)"
| "jsProp v k = Undefined"

section \<open>The option model with a parent chain\<close>

text \<open>
  Modelled from the spec: the class \<open>Model\<close> (model/Model) is not among the sources. The
  spec describes it as ``a declarative per-item style/model resolver (\<open>getItemModel\<close>,
  \<open>getShallow\<close>, \<open>get(path)\<close>) supporting dotted-path option lookup and a swappable
  parent model for style fallback''. A model is its own option object and an optional
  parent model; a lookup that finds nothing (\<open>null\<close> or \<open>undefined\<close>) in the own
  option falls back to the parent.
\<close>

datatype Model = Model (modelOption: jsval) (parentModel: "Model option")

fun walkPath :: "jsval \<Rightarrow> string list \<Rightarrow> jsval" where
  "walkPath obj [] = obj"
| "walkPath obj (k # ks) =
     (let v = jsProp obj k in if nullish v then v else walkPath v ks)"

text \<open>Modelled from the spec: \<open>model.get(path)\<close>, the path given as its list of keys.\<close>

fun get :: "Model \<Rightarrow> string list \<Rightarrow> jsval" where
  "get (Model opt par) path =
     (let v = walkPath opt path in
      if nullish v then (case par of None \<Rightarrow> v | Some p \<Rightarrow> get p path) else v)"

text \<open>Modelled from the spec: \<open>model.getShallow(key, ignoreParent)\<close>.\<close>

fun getShallow :: "Model \<Rightarrow> string \<Rightarrow> bool \<Rightarrow> jsval" where
  "getShallow (Model opt par) key ignoreParent =
     (let v = jsProp opt key in
      if nullish v \<and> \<not> ignoreParent
      then (case par of None \<Rightarrow> v | Some p \<Rightarrow> getShallow p key False)
      else v)"

section \<open>The lines visual resolver\<close>

text \<open>
  Modelled from the spec: the data table \<open>List\<close> (data/List) is not among the sources.
  Of it the resolver uses the flag \<open>hasItemOption\<close>, \<open>getItemModel\<close>, the store of
  series-level visuals written by \<open>setVisual\<close> and the per-row store written by
  \<open>setItemVisual\<close> (``per-series scalar visuals and, when per-item overrides exist,
  parallel per-row overrides keyed by row index''). A JavaScript object with a property
  set to \<open>undefined\<close> is a map with the entry \<open>Some Undefined\<close>.
\<close>

record DataList =
  hasItemOption :: bool
  getItemModel :: "nat \<Rightarrow> Model"
  visual :: "string \<rightharpoonup> jsval"
  itemVisuals :: "nat \<Rightarrow> (string \<rightharpoonup> jsval)"

definition setVisual :: "DataList \<Rightarrow> string \<Rightarrow> jsval \<Rightarrow> DataList" where
  "setVisual data key v = data\<lparr>visual := (visual data)(key \<mapsto> v)\<rparr>"

definition setItemVisual :: "DataList \<Rightarrow> nat \<Rightarrow> string \<Rightarrow> jsval \<Rightarrow> DataList" where
  "setItemVisual data idx key v =
     data\<lparr>itemVisuals := (itemVisuals data)(idx := (itemVisuals data idx)(key \<mapsto> v))\<rparr>"

definition getVisual :: "DataList \<Rightarrow> string \<Rightarrow> jsval" where
  "getVisual data key = (case visual data key of Some v \<Rightarrow> v | None \<Rightarrow> Undefined)"

text \<open>Modelled from the spec: reading a row's visual; where the row has no value of its
  own ``the series-level default silently applies''.\<close>

definition getItemVisual :: "DataList \<Rightarrow> nat \<Rightarrow> string \<Rightarrow> jsval" where
  "getItemVisual data idx key =
     (case itemVisuals data idx key of
        None \<Rightarrow> getVisual data key
      | Some v \<Rightarrow> if nullish v then getVisual data key else v)"

text \<open>The series model of a lines series: its option model and its data table
  (\<open>seriesModel.get\<close>, \<open>seriesModel.getData()\<close>).\<close>

record LinesSeriesModel =
  seriesOptionModel :: Model
  seriesData :: DataList

text \<open>\<open>a instanceof Array\<close>.\<close>

fun isArray :: "jsval \<Rightarrow> bool" where
  "isArray (Arr xs) = True"
| "isArray v = False"

text \<open>\<open>normalize\<close> of the source (the name \<open>normalize\<close> is taken in HOL): a value
  that is not an array becomes the pair of itself twice; an array is returned as it is.\<close>

definition normalize_lines :: "jsval \<Rightarrow> jsval" where
  "normalize_lines a = (if \<not> isArray a then Arr [a, a] else a)"

definition opacityQuery :: "string list" where
  "opacityQuery = [''lineStyle'', ''opacity'']"

text \<open>The per-row pass \<open>dataEach(data, idx)\<close>; the table is returned updated.\<close>

definition dataEach :: "DataList \<Rightarrow> nat \<Rightarrow> DataList" where
  "dataEach data idx =
     (let itemModel = getItemModel data idx;
          symbolType = normalize_lines (getShallow itemModel ''symbol'' True);
          symbolSize = normalize_lines (getShallow itemModel ''symbolSize'' True);
          opacity = get itemModel opacityQuery;
          d1 = (if truthy (jsIndex symbolType 0)
                then setItemVisual data idx ''fromSymbol'' (jsIndex symbolType 0) else data);
          d2 = (if truthy (jsIndex symbolType 1)
                then setItemVisual d1 idx ''toSymbol'' (jsIndex symbolType 1) else d1);
          d3 = (if truthy (jsIndex symbolSize 0)
                then setItemVisual d2 idx ''fromSymbolSize'' (jsIndex symbolSize 0) else d2);
          d4 = (if truthy (jsIndex symbolSize 1)
                then setItemVisual d3 idx ''toSymbolSize'' (jsIndex symbolSize 1) else d3)
      in setItemVisual d4 idx ''opacity'' opacity)"

text \<open>What \<open>reset\<close> returns: the object with the field \<open>dataEach\<close>, \<open>None\<close> for
  \<open>null\<close>. The data table, which \<open>reset\<close> mutates, is returned with it.\<close>

record StageResult =
  resultData :: DataList
  resultDataEach :: "(DataList \<Rightarrow> nat \<Rightarrow> DataList) option"

definition reset :: "LinesSeriesModel \<Rightarrow> StageResult" where
  "reset seriesModel =
     (let symbolType = normalize_lines (get (seriesOptionModel seriesModel) [''symbol'']);
          symbolSize = normalize_lines (get (seriesOptionModel seriesModel) [''symbolSize'']);
          data = seriesData seriesModel;
          d1 = setVisual data ''fromSymbol'' (jsAnd symbolType (jsIndex symbolType 0));
          d2 = setVisual d1 ''toSymbol'' (jsAnd symbolType (jsIndex symbolType 1));
          d3 = setVisual d2 ''fromSymbolSize'' (jsAnd symbolSize (jsIndex symbolSize 0));
          d4 = setVisual d3 ''toSymbolSize'' (jsAnd symbolSize (jsIndex symbolSize 1));
          d5 = setVisual d4 ''opacity'' (get (seriesOptionModel seriesModel) opacityQuery)
      in \<lparr>resultData = d5,
          resultDataEach = (if hasItemOption data then Some dataEach else None)\<rparr>)"

section \<open>The tree series: orientation\<close>

text \<open>\<open>getOrient\<close>; the configured value \<open>this.get('orient')\<close> is its argument.\<close>

definition getOrient :: "jsval \<Rightarrow> jsval" where
  "getOrient orient =
     (if orient = Str ''horizontal'' then Str ''LR''
      else if orient = Str ''vertical'' then Str ''TB''
      else orient)"

section \<open>The tree series: data model\<close>

text \<open>
  A number-valued field as JavaScript may hold it: a number, \<open>NaN\<close>, or nothing
  (\<open>null\<close>, \<open>undefined\<close>). It is the type of the value of a node as
  \<open>node.getValue()\<close> returns it from the data table, and of the optional option
  \<open>initialTreeDepth\<close>. Numbers are the integers, as above.
\<close>

datatype DataValue = ValueUndefined | ValueNull | ValueNaN | ValueNum int

text \<open>JavaScript's \<open>ToNumber\<close> on such a field, \<open>None\<close> for \<open>NaN\<close>: \<open>undefined\<close>
  converts to \<open>NaN\<close> and \<open>null\<close> to 0. A comparison with \<open>NaN\<close> on either side is
  false: \<open>numGe v k\<close> is \<open>v >= k\<close>, \<open>numLess v k\<close> is \<open>v < k\<close>, and
  \<open>depthLe d v\<close> is \<open>d <= v\<close> for a depth \<open>d\<close>.\<close>

fun toNumber :: "DataValue \<Rightarrow> int option" where
  "toNumber ValueUndefined = None"
| "toNumber ValueNull = Some 0"
| "toNumber ValueNaN = None"
| "toNumber (ValueNum i) = Some i"

definition numGe :: "DataValue \<Rightarrow> int \<Rightarrow> bool" where
  "numGe v k = (case toNumber v of None \<Rightarrow> False | Some n \<Rightarrow> n \<ge> k)"

definition numLess :: "DataValue \<Rightarrow> int \<Rightarrow> bool" where
  "numLess v k = (case toNumber v of None \<Rightarrow> False | Some n \<Rightarrow> n < k)"

definition depthLe :: "nat \<Rightarrow> DataValue \<Rightarrow> bool" where
  "depthLe d v = (case toNumber v of None \<Rightarrow> False | Some n \<Rightarrow> int d \<le> n)"

text \<open>
  \<open>TreeSeriesNodeItemOption\<close>: of an item of \<open>series.data\<close> the code reads \<open>name\<close>,
  \<open>value\<close>, \<open>children\<close> and \<open>collapsed\<close>. An absent \<open>children\<close> is the empty list;
  \<open>collapsed\<close> is a boolean or absent (\<open>None\<close> stands for \<open>undefined\<close> and \<open>null\<close>,
  which \<open>item.collapsed != null\<close> does not tell apart).
\<close>

datatype TreeSeriesNodeItemOption =
  ItemOption (optName: string) (optValue: DataValue) (collapsed: "bool option")
    (optChildren: "TreeSeriesNodeItemOption list")

text \<open>
  Modelled from the spec: the classes \<open>Tree\<close> and \<open>TreeNode\<close> (data/Tree) are not among
  the sources. The spec: ``each node has: \<open>depth\<close> (root = 0, monotonically increasing
  toward leaves), \<open>isExpand\<close> (boolean, derived, mutable across interactions), a
  back-reference to its backing row in a columnar data table, and a parent reference
  (non-owning). The table assigns each node a stable integer index used to look up its
  originating option object.''

  A node owns its children. A reference to a node (what a variable of the code holds) is
  the node's position: the list of child indices leading to it from the root. The parent
  reference of a position is the position without its last step, and the root has no
  parent. Two references are the same node exactly when the positions are equal.
\<close>

datatype TreeNode =
  TreeNode (name: string) (nodeValue: DataValue) (depth: nat) (dataIndex: nat)
    (isExpand: bool) (children: "TreeNode list")

record Tree =
  root :: TreeNode
  data :: "TreeSeriesNodeItemOption list"
  leavesModel :: Model

fun nodeAt :: "TreeNode \<Rightarrow> nat list \<Rightarrow> TreeNode option" where
  "nodeAt t [] = Some t"
| "nodeAt t (k # p) = (if k < length (children t) then nodeAt (children t ! k) p else None)"

fun itemAt :: "TreeSeriesNodeItemOption \<Rightarrow> nat list \<Rightarrow> TreeSeriesNodeItemOption option" where
  "itemAt it [] = Some it"
| "itemAt it (k # p) =
     (if k < length (optChildren it) then itemAt (optChildren it ! k) p else None)"

fun parentNode :: "nat list \<Rightarrow> nat list option" where
  "parentNode [] = None"
| "parentNode (k # p) = Some (butlast (k # p))"

text \<open>The number of items in an option subtree, and its items in pre-order.\<close>

fun countNodes :: "TreeSeriesNodeItemOption \<Rightarrow> nat" where
  "countNodes (ItemOption n v c cs) = Suc (sum_list (map countNodes cs))"

fun flatten :: "TreeSeriesNodeItemOption \<Rightarrow> TreeSeriesNodeItemOption list" where
  "flatten (ItemOption n v c cs) = ItemOption n v c cs # concat (map flatten cs)"

text \<open>
  Modelled from the spec: \<open>Tree.createTree\<close>. It walks the option tree in pre-order; each
  item becomes a row of the data table and a node whose \<open>dataIndex\<close> is that row, whose
  \<open>depth\<close> is one more than its parent's (0 at the root) and whose \<open>isExpand\<close> starts
  false. \<open>buildHierarchy d i item\<close> builds the subtree of \<open>item\<close> at depth \<open>d\<close> when
  \<open>i\<close> rows are already in the table.
\<close>

fun buildHierarchy :: "nat \<Rightarrow> nat \<Rightarrow> TreeSeriesNodeItemOption \<Rightarrow> TreeNode"
  and buildChildren :: "nat \<Rightarrow> nat \<Rightarrow> TreeSeriesNodeItemOption list \<Rightarrow> TreeNode list" where
  "buildHierarchy d i (ItemOption n v c cs) =
     TreeNode n v d i False (buildChildren (Suc d) (Suc i) cs)"
| "buildChildren d i [] = []"
| "buildChildren d i (c # cs) = buildHierarchy d i c # buildChildren d (i + countNodes c) cs"

text \<open>Modelled from the spec: the model of the leaves' style bundle falls back to the
  series (``before falling through to the series default'').\<close>

definition createTree :: "TreeSeriesNodeItemOption \<Rightarrow> Model \<Rightarrow> jsval \<Rightarrow> Tree" where
  "createTree dataRoot hostModel leavesOption =
     \<lparr>root = buildHierarchy 0 0 dataRoot,
      data = flatten dataRoot,
      leavesModel = Model leavesOption (Some hostModel)\<rparr>"

text \<open>Modelled from the spec: \<open>data.getRawDataItem(index)\<close>, \<open>undefined\<close> (\<open>None\<close>) when
  the table has no such row.\<close>

definition getRawDataItem ::
  "TreeSeriesNodeItemOption list \<Rightarrow> nat \<Rightarrow> TreeSeriesNodeItemOption option" where
  "getRawDataItem rows idx = (if idx < length rows then Some (rows ! idx) else None)"

text \<open>
  Modelled from the spec: \<open>eachNode('preorder', cb)\<close>, ``a full pre-order traversal'':
  the callback runs on a node, then on the subtrees of its children from left to right.
  \<open>eachNode_preorder\<close> is the traversal for a callback that reads the node and updates a
  variable of the enclosing function (the state \<open>'s\<close>); \<open>eachNode_setIsExpand\<close> the
  traversal for a callback that assigns \<open>node.isExpand\<close>.
\<close>

fun eachNode_preorder :: "(TreeNode \<Rightarrow> 's \<Rightarrow> 's) \<Rightarrow> TreeNode \<Rightarrow> 's \<Rightarrow> 's" where
  "eachNode_preorder cb (TreeNode n v d i e cs) s =
     fold (eachNode_preorder cb) cs (cb (TreeNode n v d i e cs) s)"

fun eachNode_setIsExpand :: "(TreeNode \<Rightarrow> bool) \<Rightarrow> TreeNode \<Rightarrow> TreeNode" where
  "eachNode_setIsExpand cb (TreeNode n v d i e cs) =
     TreeNode n v d i (cb (TreeNode n v d i e cs)) (map (eachNode_setIsExpand cb) cs)"

text \<open>Modelled from the spec: the tree's array of nodes in row order, as references, and
  \<open>tree.getNodeByDataIndex\<close>, \<open>undefined\<close> (\<open>None\<close>) beyond the last row.\<close>

fun nodeRefs :: "TreeNode \<Rightarrow> nat list list"
  and childRefs :: "nat \<Rightarrow> TreeNode list \<Rightarrow> nat list list" where
  "nodeRefs (TreeNode n v d i e cs) = [] # childRefs 0 cs"
| "childRefs k [] = []"
| "childRefs k (c # cs) = map ((#) k) (nodeRefs c) @ childRefs (Suc k) cs"

definition getNodeByDataIndex :: "Tree \<Rightarrow> nat \<Rightarrow> nat list option" where
  "getNodeByDataIndex tree idx =
     (let refs = nodeRefs (root tree) in if idx < length refs then Some (refs ! idx) else None)"

section \<open>The tree series: initial data\<close>

text \<open>\<open>TreeSeriesOption\<close>: the fields that \<open>getInitialData\<close> reads. \<open>initialTreeDepth\<close>
  is an optional number: it may be absent (\<open>undefined\<close>) or \<open>NaN\<close>.\<close>

record TreeSeriesOption =
  seriesName :: string
  seriesDataOption :: "TreeSeriesNodeItemOption list"
  leaves :: jsval
  expandAndCollapse :: bool
  initialTreeDepth :: DataValue

text \<open>The virtual root \<open>{name: option.name, children: option.data}\<close>.\<close>

definition virtualRoot :: "TreeSeriesOption \<Rightarrow> TreeSeriesNodeItemOption" where
  "virtualRoot option = ItemOption (seriesName option) ValueUndefined None (seriesDataOption option)"

text \<open>The first traversal of \<open>getInitialData\<close>: \<open>treeDepth\<close> starts at 0 and is raised
  to the depth of every node deeper than it.\<close>

definition treeDepth :: "TreeNode \<Rightarrow> nat" where
  "treeDepth rootNode =
     eachNode_preorder (\<lambda>node td. if depth node > td then depth node else td) rootNode 0"

text \<open>\<open>expandTreeDepth\<close>: the configured depth when \<open>expandAndCollapse\<close> is on and
  \<open>option.initialTreeDepth >= 0\<close> holds, the computed \<open>treeDepth\<close> otherwise.\<close>

definition expandTreeDepth :: "TreeSeriesOption \<Rightarrow> nat \<Rightarrow> DataValue" where
  "expandTreeDepth option td =
     (if expandAndCollapse option \<and> numGe (initialTreeDepth option) 0
      then initialTreeDepth option else ValueNum (int td))"

text \<open>The callback of the second traversal: the value assigned to \<open>node.isExpand\<close>.\<close>

definition initialIsExpand ::
  "TreeSeriesNodeItemOption list \<Rightarrow> DataValue \<Rightarrow> TreeNode \<Rightarrow> bool" where
  "initialIsExpand rows etd node =
     (case getRawDataItem rows (dataIndex node) of
        None \<Rightarrow> depthLe (depth node) etd
      | Some item \<Rightarrow>
          (case collapsed item of
             None \<Rightarrow> depthLe (depth node) etd
           | Some c \<Rightarrow> \<not> c))"

text \<open>\<open>getInitialData\<close>; \<open>this\<close> is the series model. The result is the tree, which
  holds the data table the source returns. The hook \<open>beforeLink\<close> is modelled below.\<close>

definition getInitialData :: "Model \<Rightarrow> TreeSeriesOption \<Rightarrow> Tree" where
  "getInitialData this option =
     (let leavesOption = (if truthy (leaves option) then leaves option else Obj []);
          tree = createTree (virtualRoot option) this leavesOption;
          td = treeDepth (root tree);
          etd = expandTreeDepth option td
      in tree\<lparr>root := eachNode_setIsExpand (initialIsExpand (data tree) etd) (root tree)\<rparr>)"

datatype error = TypeError

text \<open>
  The function that \<open>beforeLink\<close> installs in place of \<open>getItemModel\<close>: it calls the
  original method (\<open>original\<close>), looks the node up in the tree as it is at the time of the
  call, and makes the leaves' model the parent of the item's model when the node has no
  children or is not expanded. Reading a field of \<open>undefined\<close> is a \<open>TypeError\<close>.
\<close>

definition beforeLink :: "Tree \<Rightarrow> (nat \<Rightarrow> Model) \<Rightarrow> nat \<Rightarrow> error + Model" where
  "beforeLink tree original idx =
     (let model = original idx in
      case getNodeByDataIndex tree idx of
        None \<Rightarrow> Inl TypeError
      | Some ref \<Rightarrow>
          (case nodeAt (root tree) ref of
             None \<Rightarrow> Inl TypeError
           | Some node \<Rightarrow>
               if children node = [] \<or> \<not> isExpand node
               then Inr (Model (modelOption model) (Some (leavesModel tree)))
               else Inr model))"

section \<open>The tree series: tooltip\<close>

text \<open>A number as JavaScript prints it (integers, in decimal).\<close>

fun natToString :: "nat \<Rightarrow> string" where
  "natToString n =
     (if n < 10 then [''0123456789'' ! n]
      else natToString (n div 10) @ [''0123456789'' ! (n mod 10)])"

definition numberToString :: "int \<Rightarrow> string" where
  "numberToString i = (if i < 0 then CHR ''-'' # natToString (nat (- i)) else natToString (nat i))"

text \<open>\<open>isNaN(value)\<close>: \<open>undefined\<close> converts to \<open>NaN\<close>, \<open>null\<close> to 0.\<close>

fun isNaN :: "DataValue \<Rightarrow> bool" where
  "isNaN ValueUndefined = True"
| "isNaN ValueNull = False"
| "isNaN ValueNaN = True"
| "isNaN (ValueNum i) = False"

fun isNull :: "DataValue \<Rightarrow> bool" where
  "isNull ValueUndefined = True"
| "isNull ValueNull = True"
| "isNull v = False"

fun valueToString :: "DataValue \<Rightarrow> string" where
  "valueToString ValueUndefined = ''undefined''"
| "valueToString ValueNull = ''null''"
| "valueToString ValueNaN = ''NaN''"
| "valueToString (ValueNum i) = numberToString i"

text \<open>
  The loop of \<open>formatTooltip\<close>: \<open>node\<close> is a reference or \<open>undefined\<close> (\<open>None\<close>),
  \<open>realRoot\<close> likewise. While \<open>node\<close> is defined and is not \<open>realRoot\<close>, the parent's
  name is put in front of \<open>name\<close> and \<open>node\<close> moves to the parent; at the root, which
  has no parent, \<open>node.parentNode.name\<close> is a \<open>TypeError\<close>.
\<close>

function climb :: "TreeNode \<Rightarrow> nat list option \<Rightarrow> nat list option \<Rightarrow> string \<Rightarrow> error + string" where
  "climb rootNode realRoot None nm = Inr nm"
| "climb rootNode realRoot (Some ref) nm =
     (if Some ref = realRoot then Inr nm
      else (case parentNode ref of
              None \<Rightarrow> Inl TypeError
            | Some pref \<Rightarrow>
                (case nodeAt rootNode pref of
                   None \<Rightarrow> Inl TypeError
                 | Some parent \<Rightarrow> climb rootNode realRoot (Some pref) (name parent @ ''.'' @ nm))))"
  by pat_completeness auto
termination
  by (relation "measure (\<lambda>(t, rr, node, nm). case node of None \<Rightarrow> 0 | Some ref \<Rightarrow> length ref)")
     (auto elim!: parentNode.elims)

text \<open>\<open>formatTooltip\<close>; \<open>encodeHTML\<close> (util/format) is not among the sources and is a
  parameter. \<open>tree.root.children[0]\<close> is \<open>undefined\<close> when the root has no children.\<close>

definition formatTooltip :: "(string \<Rightarrow> string) \<Rightarrow> Tree \<Rightarrow> nat \<Rightarrow> error + string" where
  "formatTooltip encodeHTML tree idx =
     (let realRoot = (if children (root tree) = [] then None else Some [0]) in
      case getNodeByDataIndex tree idx of
        None \<Rightarrow> Inl TypeError
      | Some ref \<Rightarrow>
          (case nodeAt (root tree) ref of
             None \<Rightarrow> Inl TypeError
           | Some node \<Rightarrow>
               (let v = nodeValue node in
                case climb (root tree) realRoot (Some ref) (name node) of
                  Inl e \<Rightarrow> Inl e
                | Inr nm \<Rightarrow>
                    Inr (encodeHTML
                      (nm @ (if isNaN v \<or> isNull v then [] else '' : '' @ valueToString v))))))"

section \<open>Definitions used in the statements\<close>

text \<open>The nodes of a tree in pre-order, the order in which \<open>eachNode_preorder\<close> visits
  them.\<close>

fun nodesPreorder :: "TreeNode \<Rightarrow> TreeNode list" where
  "nodesPreorder (TreeNode n v d i e cs) = TreeNode n v d i e cs # concat (map nodesPreorder cs)"

text \<open>The row of the item at position \<open>p\<close> of an option tree: the number of items before
  it in pre-order.\<close>

fun offsetAt :: "TreeSeriesNodeItemOption \<Rightarrow> nat list \<Rightarrow> nat" where
  "offsetAt it [] = 0"
| "offsetAt it (k # p) =
     Suc (sum_list (map countNodes (take k (optChildren it)))) + offsetAt (optChildren it ! k) p"

text \<open>
  The tooltip as the spec words it: the nodes on the way from a node down a position
  (\<open>nodesAlong\<close>), their names joined with a dot (\<open>joinDot\<close>), and the suffix
  \<open>" : " + value\<close>, present only for ``a defined, non-NaN number''.
\<close>

fun nodesAlong :: "TreeNode \<Rightarrow> nat list \<Rightarrow> TreeNode list" where
  "nodesAlong t [] = [t]"
| "nodesAlong t (k # p) =
     t # (if k < length (children t) then nodesAlong (children t ! k) p else [])"

fun joinDot :: "string list \<Rightarrow> string" where
  "joinDot [] = []"
| "joinDot [x] = x"
| "joinDot (x # y # ys) = x @ ''.'' @ joinDot (y # ys)"

fun tooltipSuffix :: "DataValue \<Rightarrow> string" where
  "tooltipSuffix (ValueNum i) = '' : '' @ numberToString i"
| "tooltipSuffix v = []"

text \<open>The normalized symbol and symbol size of a row, as \<open>dataEach\<close> computes them.\<close>

definition rowSymbolType :: "DataList \<Rightarrow> nat \<Rightarrow> jsval" where
  "rowSymbolType tbl idx = normalize_lines (getShallow (getItemModel tbl idx) ''symbol'' True)"

definition rowSymbolSize :: "DataList \<Rightarrow> nat \<Rightarrow> jsval" where
  "rowSymbolSize tbl idx =
     normalize_lines (getShallow (getItemModel tbl idx) ''symbolSize'' True)"

text \<open>The four attributes that \<open>dataEach\<close> writes under a guard, each with the value of
  the row that the guard tests.\<close>

definition rowOverrides :: "DataList \<Rightarrow> nat \<Rightarrow> (string \<times> jsval) list" where
  "rowOverrides tbl idx =
     [(''fromSymbol'', jsIndex (rowSymbolType tbl idx) 0),
      (''toSymbol'', jsIndex (rowSymbolType tbl idx) 1),
      (''fromSymbolSize'', jsIndex (rowSymbolSize tbl idx) 0),
      (''toSymbolSize'', jsIndex (rowSymbolSize tbl idx) 1)]"

section \<open>Example inputs\<close>

text \<open>A tree series with the chain root, A, B, where B has the value 5; nodes deeper
  than the root start collapsed (\<open>initialTreeDepth: 0\<close>).\<close>

definition exampleSeriesModel :: Model where
  "exampleSeriesModel =
     Model (Obj [(''label'', Obj [(''show'', Boolean True), (''color'', Str ''#555'')])]) None"

definition chainOption :: TreeSeriesOption where
  "chainOption =
     \<lparr>seriesName = ''tree'',
      seriesDataOption =
        [ItemOption ''A'' ValueUndefined None [ItemOption ''B'' (ValueNum 5) None []]],
      leaves = Obj [(''label'', Obj [(''show'', Boolean False)])],
      expandAndCollapse = True,
      initialTreeDepth = ValueNum 0\<rparr>"

text \<open>The same chain where B has \<open>collapsed: false\<close> and no value.\<close>

definition chainOptionExplicit :: TreeSeriesOption where
  "chainOptionExplicit =
     \<lparr>seriesName = ''tree'',
      seriesDataOption =
        [ItemOption ''A'' ValueUndefined None [ItemOption ''B'' ValueNaN (Some False) []]],
      leaves = Obj [(''label'', Obj [(''show'', Boolean False)])],
      expandAndCollapse = True,
      initialTreeDepth = ValueNum 0\<rparr>"

text \<open>The chain with \<open>expandAndCollapse\<close> on and no \<open>initialTreeDepth\<close>, and the chain
  with \<open>initialTreeDepth: NaN\<close>.\<close>

definition chainOptionNoDepth :: TreeSeriesOption where
  "chainOptionNoDepth = chainOption\<lparr>initialTreeDepth := ValueUndefined\<rparr>"

definition chainOptionNaNDepth :: TreeSeriesOption where
  "chainOptionNaNDepth = chainOption\<lparr>initialTreeDepth := ValueNaN\<rparr>"

text \<open>A series with two items at the top level.\<close>

definition twoRootsOption :: TreeSeriesOption where
  "twoRootsOption =
     \<lparr>seriesName = ''tree'',
      seriesDataOption =
        [ItemOption ''A'' ValueUndefined None [], ItemOption ''C'' (ValueNum 7) None []],
      leaves = Undefined,
      expandAndCollapse = False,
      initialTreeDepth = ValueNum 2\<rparr>"

text \<open>A lines series with \<open>symbol: 'circle'\<close> and \<open>symbolSize: 10\<close>; its first row has
  the item options \<open>symbolSize: 0\<close> and \<open>symbol: ''\<close>, its second row
  \<open>symbolSize: [4, 0]\<close>, its other rows none.\<close>

definition circleModel :: Model where
  "circleModel = Model (Obj [(''symbol'', Str ''circle''), (''symbolSize'', Num 10)]) None"

definition circleSeries :: LinesSeriesModel where
  "circleSeries =
     \<lparr>seriesOptionModel = circleModel,
      seriesData =
        \<lparr>hasItemOption = True,
         getItemModel = (\<lambda>idx. Model
           (if idx = 0 then Obj [(''symbolSize'', Num 0), (''symbol'', Str [])]
            else if idx = 1 then Obj [(''symbolSize'', Arr [Num 4, Num 0])]
            else Obj [])
           (Some circleModel)),
         visual = Map.empty,
         itemVisuals = (\<lambda>idx. Map.empty)\<rparr>\<rparr>"

text \<open>A lines series with \<open>symbol: ['a', 'b']\<close> and \<open>lineStyle: {opacity: 1}\<close>, whose rows
  have no options of their own.\<close>

definition pairModel :: Model where
  "pairModel =
     Model (Obj [(''symbol'', Arr [Str ''a'', Str ''b'']),
                 (''lineStyle'', Obj [(''opacity'', Num 1)])]) None"

definition pairSeries :: LinesSeriesModel where
  "pairSeries =
     \<lparr>seriesOptionModel = pairModel,
      seriesData =
        \<lparr>hasItemOption = False,
         getItemModel = (\<lambda>idx. Model (Obj []) (Some pairModel)),
         visual = Map.empty,
         itemVisuals = (\<lambda>idx. Map.empty)\<rparr>\<rparr>"

section \<open>Lemmas on the table of the lines series\<close>

lemma visual_setVisual: "visual (setVisual d k v) = (visual d)(k \<mapsto> v)"
  by (simp add: setVisual_def)

lemma visual_setItemVisual: "visual (setItemVisual d i k v) = visual d"
  by (simp add: setItemVisual_def)

lemma itemVisuals_setItemVisual:
  "itemVisuals (setItemVisual d i k v) = (itemVisuals d)(i := (itemVisuals d i)(k \<mapsto> v))"
  by (simp add: setItemVisual_def)

lemma truthy_normalize_lines: "truthy (normalize_lines a)"
  by (cases a) (simp_all add: normalize_lines_def)

lemma reset_visual:
  "visual (resultData (reset sm)) =
     (visual (seriesData sm))
       (''fromSymbol'' \<mapsto> jsIndex (normalize_lines (get (seriesOptionModel sm) [''symbol''])) 0,
        ''toSymbol'' \<mapsto> jsIndex (normalize_lines (get (seriesOptionModel sm) [''symbol''])) 1,
        ''fromSymbolSize'' \<mapsto>
          jsIndex (normalize_lines (get (seriesOptionModel sm) [''symbolSize''])) 0,
        ''toSymbolSize'' \<mapsto>
          jsIndex (normalize_lines (get (seriesOptionModel sm) [''symbolSize''])) 1,
        ''opacity'' \<mapsto> get (seriesOptionModel sm) opacityQuery)"
  by (simp add: reset_def Let_def visual_setVisual jsAnd_def truthy_normalize_lines)

lemma dataEach_itemVisuals:
  "itemVisuals (dataEach tbl idx) idx =
     (let st = rowSymbolType tbl idx;
          ss = rowSymbolSize tbl idx;
          m0 = itemVisuals tbl idx;
          m1 = (if truthy (jsIndex st 0) then m0(''fromSymbol'' \<mapsto> jsIndex st 0) else m0);
          m2 = (if truthy (jsIndex st 1) then m1(''toSymbol'' \<mapsto> jsIndex st 1) else m1);
          m3 = (if truthy (jsIndex ss 0) then m2(''fromSymbolSize'' \<mapsto> jsIndex ss 0) else m2);
          m4 = (if truthy (jsIndex ss 1) then m3(''toSymbolSize'' \<mapsto> jsIndex ss 1) else m3)
      in m4(''opacity'' \<mapsto> get (getItemModel tbl idx) opacityQuery))"
  by (simp add: dataEach_def Let_def setItemVisual_def rowSymbolType_def rowSymbolSize_def)

lemma dataEach_fromSymbol:
  "itemVisuals (dataEach tbl idx) idx ''fromSymbol'' =
     (if truthy (jsIndex (rowSymbolType tbl idx) 0)
      then Some (jsIndex (rowSymbolType tbl idx) 0)
      else itemVisuals tbl idx ''fromSymbol'')"
  by (simp add: dataEach_itemVisuals Let_def)

lemma dataEach_toSymbol:
  "itemVisuals (dataEach tbl idx) idx ''toSymbol'' =
     (if truthy (jsIndex (rowSymbolType tbl idx) 1)
      then Some (jsIndex (rowSymbolType tbl idx) 1)
      else itemVisuals tbl idx ''toSymbol'')"
  by (simp add: dataEach_itemVisuals Let_def)

lemma dataEach_fromSymbolSize:
  "itemVisuals (dataEach tbl idx) idx ''fromSymbolSize'' =
     (if truthy (jsIndex (rowSymbolSize tbl idx) 0)
      then Some (jsIndex (rowSymbolSize tbl idx) 0)
      else itemVisuals tbl idx ''fromSymbolSize'')"
  by (simp add: dataEach_itemVisuals Let_def)

lemma dataEach_toSymbolSize:
  "itemVisuals (dataEach tbl idx) idx ''toSymbolSize'' =
     (if truthy (jsIndex (rowSymbolSize tbl idx) 1)
      then Some (jsIndex (rowSymbolSize tbl idx) 1)
      else itemVisuals tbl idx ''toSymbolSize'')"
  by (simp add: dataEach_itemVisuals Let_def)

lemma dataEach_opacity:
  "itemVisuals (dataEach tbl idx) idx ''opacity'' =
     Some (get (getItemModel tbl idx) opacityQuery)"
  by (simp add: dataEach_itemVisuals Let_def)

lemma dataEach_other_key:
  assumes "key \<noteq> ''fromSymbol''" and "key \<noteq> ''toSymbol''" and "key \<noteq> ''fromSymbolSize''"
    and "key \<noteq> ''toSymbolSize''" and "key \<noteq> ''opacity''"
  shows "itemVisuals (dataEach tbl idx) idx key = itemVisuals tbl idx key"
  using assms by (simp add: dataEach_itemVisuals Let_def)

lemma dataEach_visual: "visual (dataEach tbl idx) = visual tbl"
  by (simp add: dataEach_def Let_def visual_setItemVisual)

lemma dataEach_other_row:
  "j \<noteq> idx \<Longrightarrow> itemVisuals (dataEach tbl idx) j = itemVisuals tbl j"
  by (simp add: dataEach_def Let_def itemVisuals_setItemVisual)

lemma getItemVisual_truthy:
  "itemVisuals d i k = Some v \<Longrightarrow> truthy v \<Longrightarrow> getItemVisual d i k = v"
  by (cases v) (simp_all add: getItemVisual_def)

lemma getItemVisual_same:
  "itemVisuals d' i k = itemVisuals d i k \<Longrightarrow> visual d' = visual d \<Longrightarrow>
   getItemVisual d' i k = getItemVisual d i k"
  by (simp add: getItemVisual_def getVisual_def split: option.splits)

lemma getItemVisual_guarded:
  assumes "itemVisuals d' i k = (if truthy v then Some v else itemVisuals d i k)"
    and "visual d' = visual d"
  shows "getItemVisual d' i k = (if truthy v then v else getItemVisual d i k)"
proof (cases "truthy v")
  case True
  with assms(1) have "itemVisuals d' i k = Some v" by simp
  from getItemVisual_truthy [OF this True] True show ?thesis by simp
next
  case False
  with assms(1) have "itemVisuals d' i k = itemVisuals d i k" by simp
  from getItemVisual_same [OF this assms(2)] False show ?thesis by simp
qed

lemma getItemVisual_no_entry: "itemVisuals d i k = None \<Longrightarrow> getItemVisual d i k = getVisual d k"
  by (simp add: getItemVisual_def)

lemma tooltipSuffix_code:
  "(if isNaN v \<or> isNull v then [] else '' : '' @ valueToString v) = tooltipSuffix v"
  by (cases v) simp_all

section \<open>Lemmas on the option tree and the tree built from it\<close>

lemma buildHierarchy_sel [simp]:
  "depth (buildHierarchy d i it) = d"
  "dataIndex (buildHierarchy d i it) = i"
  "name (buildHierarchy d i it) = optName it"
  "nodeValue (buildHierarchy d i it) = optValue it"
  "children (buildHierarchy d i it) = buildChildren (Suc d) (Suc i) (optChildren it)"
  by (cases it; simp)+

lemma length_buildChildren [simp]: "length (buildChildren d i cs) = length cs"
  by (induction cs arbitrary: i) simp_all

lemma buildChildren_nth:
  "k < length cs \<Longrightarrow>
   buildChildren d i cs ! k =
     buildHierarchy d (i + sum_list (map countNodes (take k cs))) (cs ! k)"
proof (induction cs arbitrary: i k)
  case Nil
  then show ?case by simp
next
  case (Cons c cs)
  show ?case
  proof (cases k)
    case 0
    then show ?thesis by simp
  next
    case (Suc j)
    with Cons.prems have "j < length cs" by simp
    from Cons.IH [OF this] Suc show ?thesis by (simp add: add.assoc)
  qed
qed

text \<open>The node at a position of the built tree is built from the item at the same
  position of the option tree; its depth is the length of the position.\<close>

lemma nodeAt_buildHierarchy:
  "itemAt it p = Some it' \<Longrightarrow>
   nodeAt (buildHierarchy d i it) p =
     Some (buildHierarchy (d + length p) (i + offsetAt it p) it')"
proof (induction p arbitrary: d i it)
  case Nil
  then show ?case by simp
next
  case (Cons k p)
  from Cons.prems have k: "k < length (optChildren it)"
    and sub: "itemAt (optChildren it ! k) p = Some it'"
    by (simp_all split: if_splits)
  from Cons.IH [OF sub] k show ?case
    by (simp add: buildChildren_nth add.assoc)
qed

lemma nodeAt_buildHierarchy_None:
  "itemAt it p = None \<Longrightarrow> nodeAt (buildHierarchy d i it) p = None"
proof (induction p arbitrary: d i it)
  case Nil
  then show ?case by simp
next
  case (Cons k p)
  show ?case
  proof (cases "k < length (optChildren it)")
    case True
    with Cons.prems have "itemAt (optChildren it ! k) p = None" by simp
    from Cons.IH [OF this] True show ?thesis by (simp add: buildChildren_nth)
  next
    case False
    then show ?thesis by simp
  qed
qed

lemma length_flatten: "length (flatten it) = countNodes it"
proof (induction it)
  case (ItemOption n v c cs)
  then have "map (length \<circ> flatten) cs = map countNodes cs" by simp
  then have "sum_list (map length (map flatten cs)) = sum_list (map countNodes cs)"
    by (simp only: map_map)
  then show ?case
    by (simp only: flatten.simps countNodes.simps length_Cons length_concat)
qed

lemma concat_flatten_nth:
  assumes "k < length cs" and "j < countNodes (cs ! k)"
  shows "concat (map flatten cs) ! (sum_list (map countNodes (take k cs)) + j) =
           flatten (cs ! k) ! j"
    and "sum_list (map countNodes (take k cs)) + j < sum_list (map countNodes cs)"
proof -
  from assms(1) have cs: "cs = take k cs @ cs ! k # drop (Suc k) cs"
    by (rule id_take_nth_drop)
  have len: "length (concat (map flatten (take k cs))) = sum_list (map countNodes (take k cs))"
    by (simp add: length_concat comp_def length_flatten)
  have "concat (map flatten cs) =
        concat (map flatten (take k cs)) @ flatten (cs ! k) @
        concat (map flatten (drop (Suc k) cs))"
    by (subst cs) simp
  then show "concat (map flatten cs) ! (sum_list (map countNodes (take k cs)) + j) =
      flatten (cs ! k) ! j"
    using assms(2) by (simp add: nth_append len length_flatten)
  have "sum_list (map countNodes cs) =
        sum_list (map countNodes (take k cs)) + countNodes (cs ! k) +
        sum_list (map countNodes (drop (Suc k) cs))"
    by (subst cs) simp
  with assms(2) show "sum_list (map countNodes (take k cs)) + j < sum_list (map countNodes cs)"
    by simp
qed

text \<open>The row of an item holds the item: the table looks the originating option up.\<close>

lemma flatten_offsetAt:
  "itemAt it p = Some it' \<Longrightarrow>
   offsetAt it p < countNodes it \<and> flatten it ! offsetAt it p = it'"
proof (induction p arbitrary: it)
  case Nil
  then show ?case by (cases it) auto
next
  case (Cons k p)
  obtain n v c cs where it: "it = ItemOption n v c cs" by (cases it)
  from Cons.prems it have k: "k < length cs" and sub: "itemAt (cs ! k) p = Some it'"
    by (simp_all split: if_splits)
  from Cons.IH [OF sub] have j: "offsetAt (cs ! k) p < countNodes (cs ! k)"
    and nth: "flatten (cs ! k) ! offsetAt (cs ! k) p = it'" by simp_all
  from concat_flatten_nth [OF k j] nth it show ?case by simp
qed

section \<open>Lemmas on the traversals\<close>

lemma setIsExpand_sel [simp]:
  "isExpand (eachNode_setIsExpand cb t) = cb t"
  "depth (eachNode_setIsExpand cb t) = depth t"
  "dataIndex (eachNode_setIsExpand cb t) = dataIndex t"
  "name (eachNode_setIsExpand cb t) = name t"
  "nodeValue (eachNode_setIsExpand cb t) = nodeValue t"
  "children (eachNode_setIsExpand cb t) = map (eachNode_setIsExpand cb) (children t)"
  by (cases t; simp)+

lemma nodeAt_setIsExpand:
  "nodeAt (eachNode_setIsExpand cb t) p = map_option (eachNode_setIsExpand cb) (nodeAt t p)"
  by (induction p arbitrary: t) simp_all

lemma fold_eachNode_preorder:
  assumes "\<And>c s. c \<in> set cs \<Longrightarrow> eachNode_preorder cb c s = fold cb (nodesPreorder c) s"
  shows "fold (eachNode_preorder cb) cs s = fold cb (concat (map nodesPreorder cs)) s"
  using assms by (induction cs arbitrary: s) simp_all

lemma eachNode_preorder_fold: "eachNode_preorder cb t s = fold cb (nodesPreorder t) s"
proof (induction t arbitrary: s)
  case (TreeNode n v d i e cs)
  then show ?case by (simp add: fold_eachNode_preorder)
qed

lemma fold_max_depth:
  "fold (\<lambda>node td. if depth node > td then depth node else td) ns s =
     Max (insert s (depth ` set ns))"
proof (induction ns arbitrary: s)
  case Nil
  then show ?case by simp
next
  case (Cons a ns)
  have "Max (insert (if s < depth a then depth a else s) (depth ` set ns)) =
        Max (insert s (insert (depth a) (depth ` set ns)))"
  proof (cases "depth ` set ns = {}")
    case True
    then show ?thesis by (simp add: max_def)
  next
    case False
    then show ?thesis by (simp add: max_def)
  qed
  with Cons.IH show ?case by simp
qed

lemma nodesPreorder_hd: "t \<in> set (nodesPreorder t)"
  by (cases t) simp

lemma treeDepth_Max_preorder: "treeDepth t = Max (depth ` set (nodesPreorder t))"
proof -
  have ne: "depth ` set (nodesPreorder t) \<noteq> {}"
    using nodesPreorder_hd [of t] by auto
  have "treeDepth t = Max (insert 0 (depth ` set (nodesPreorder t)))"
    by (simp add: treeDepth_def eachNode_preorder_fold fold_max_depth)
  also have "\<dots> = max 0 (Max (depth ` set (nodesPreorder t)))"
    using ne by simp
  finally show ?thesis by simp
qed

lemma nodeAt_in_preorder: "nodeAt t p = Some n \<Longrightarrow> n \<in> set (nodesPreorder t)"
proof (induction p arbitrary: t)
  case Nil
  then show ?case by (simp add: nodesPreorder_hd)
next
  case (Cons k p)
  obtain nm v d i e cs where t: "t = TreeNode nm v d i e cs" by (cases t)
  from Cons.prems t have k: "k < length cs" and sub: "nodeAt (cs ! k) p = Some n"
    by (simp_all split: if_splits)
  from Cons.IH [OF sub] k t show ?case by auto
qed

lemma preorder_reachable: "n \<in> set (nodesPreorder t) \<Longrightarrow> \<exists>p. nodeAt t p = Some n"
proof (induction t)
  case (TreeNode nm v d i e cs)
  show ?case
  proof (cases "n = TreeNode nm v d i e cs")
    case True
    then have "nodeAt (TreeNode nm v d i e cs) [] = Some n" by simp
    then show ?thesis by blast
  next
    case False
    with TreeNode.prems obtain c where c: "c \<in> set cs" and n: "n \<in> set (nodesPreorder c)"
      by auto
    from TreeNode.IH [OF c n] obtain p where p: "nodeAt c p = Some n" by blast
    from c obtain k where k: "k < length cs" and ck: "cs ! k = c"
      by (auto simp: in_set_conv_nth)
    with p have "nodeAt (TreeNode nm v d i e cs) (k # p) = Some n" by simp
    then show ?thesis by blast
  qed
qed

lemma set_nodesPreorder: "set (nodesPreorder t) = {n. \<exists>p. nodeAt t p = Some n}"
  using nodeAt_in_preorder preorder_reachable by blast

lemma treeDepth_Max: "treeDepth t = Max (depth ` {n. \<exists>p. nodeAt t p = Some n})"
  by (simp add: treeDepth_Max_preorder set_nodesPreorder)

lemma depth_le_treeDepth:
  assumes "nodeAt t p = Some n"
  shows "depth n \<le> treeDepth t"
proof -
  from assms have "depth n \<in> depth ` set (nodesPreorder t)"
    by (auto dest: nodeAt_in_preorder)
  then show ?thesis by (simp add: treeDepth_Max_preorder)
qed

section \<open>Lemmas on the initial data\<close>

lemma root_createTree [simp]: "root (createTree r m l) = buildHierarchy 0 0 r"
  by (simp add: createTree_def)

lemma data_createTree [simp]: "data (createTree r m l) = flatten r"
  by (simp add: createTree_def)

lemma leavesModel_createTree [simp]: "leavesModel (createTree r m l) = Model l (Some m)"
  by (simp add: createTree_def)

lemma root_getInitialData:
  "root (getInitialData this option) =
     eachNode_setIsExpand
       (initialIsExpand (flatten (virtualRoot option))
          (expandTreeDepth option (treeDepth (buildHierarchy 0 0 (virtualRoot option)))))
       (buildHierarchy 0 0 (virtualRoot option))"
  by (simp add: getInitialData_def Let_def)

lemma data_getInitialData: "data (getInitialData this option) = flatten (virtualRoot option)"
  by (simp add: getInitialData_def Let_def)

lemma getInitialData_node:
  assumes "itemAt (virtualRoot option) p = Some item"
  shows "\<exists>node. nodeAt (root (getInitialData this option)) p = Some node \<and>
           depth node = length p \<and>
           getRawDataItem (data (getInitialData this option)) (dataIndex node) = Some item \<and>
           isExpand node =
             (case collapsed item of
                None \<Rightarrow> depthLe (length p)
                  (expandTreeDepth option (treeDepth (buildHierarchy 0 0 (virtualRoot option))))
              | Some c \<Rightarrow> \<not> c)"
proof -
  let ?vr = "virtualRoot option"
  let ?etd = "expandTreeDepth option (treeDepth (buildHierarchy 0 0 ?vr))"
  let ?n0 = "buildHierarchy (length p) (offsetAt ?vr p) item"
  let ?node = "eachNode_setIsExpand (initialIsExpand (flatten ?vr) ?etd) ?n0"
  from nodeAt_buildHierarchy [OF assms, of 0 0]
  have n0: "nodeAt (buildHierarchy 0 0 ?vr) p = Some ?n0" by simp
  then have at: "nodeAt (root (getInitialData this option)) p = Some ?node"
    by (simp add: root_getInitialData nodeAt_setIsExpand)
  from flatten_offsetAt [OF assms]
  have raw: "getRawDataItem (flatten ?vr) (offsetAt ?vr p) = Some item"
    by (simp add: getRawDataItem_def length_flatten)
  have "isExpand ?node = initialIsExpand (flatten ?vr) ?etd ?n0" by simp
  also have "\<dots> = (case collapsed item of None \<Rightarrow> depthLe (length p) ?etd | Some c \<Rightarrow> \<not> c)"
    by (simp add: initialIsExpand_def raw split: option.splits)
  finally have ex: "isExpand ?node =
      (case collapsed item of None \<Rightarrow> depthLe (length p) ?etd | Some c \<Rightarrow> \<not> c)" .
  have "depth ?node = length p" by simp
  moreover have "getRawDataItem (data (getInitialData this option)) (dataIndex ?node) = Some item"
    by (simp add: data_getInitialData raw)
  ultimately show ?thesis using at ex by blast
qed

lemma length_le_treeDepth:
  assumes "itemAt r p = Some item"
  shows "length p \<le> treeDepth (buildHierarchy 0 0 r)"
proof -
  from nodeAt_buildHierarchy [OF assms, of 0 0]
  have "nodeAt (buildHierarchy 0 0 r) p = Some (buildHierarchy (length p) (offsetAt r p) item)"
    by simp
  from depth_le_treeDepth [OF this] show ?thesis by simp
qed

section \<open>Lemmas on the walk to the first real node\<close>

lemma nodesAlong_nonempty [simp]: "nodesAlong t p \<noteq> []"
  by (cases p) simp_all

lemma joinDot_snoc: "xs \<noteq> [] \<Longrightarrow> joinDot (xs @ [x]) = joinDot xs @ ''.'' @ x"
  by (induction xs rule: joinDot.induct) simp_all

lemma nodeAt_snoc:
  "nodeAt t (p @ [k]) = Some n \<Longrightarrow>
   \<exists>m. nodeAt t p = Some m \<and> nodesAlong t (p @ [k]) = nodesAlong t p @ [n]"
proof (induction p arbitrary: t)
  case Nil
  then show ?case by (simp split: if_splits)
next
  case (Cons j p)
  from Cons.prems have j: "j < length (children t)"
    and sub: "nodeAt (children t ! j) (p @ [k]) = Some n"
    by (simp_all split: if_splits)
  from Cons.IH [OF sub] j show ?case by auto
qed

lemma climb_realRoot:
  "nodeAt t (0 # q) = Some n \<Longrightarrow>
   climb t (Some [0]) (Some (0 # q)) (name n @ acc) =
     Inr (joinDot (map name (nodesAlong (children t ! 0) q)) @ acc)"
proof (induction q arbitrary: n acc rule: rev_induct)
  case Nil
  then show ?case by (simp split: if_splits)
next
  case (snoc k q)
  from snoc.prems have "nodeAt t ((0 # q) @ [k]) = Some n" by simp
  from nodeAt_snoc [OF this] obtain m where m: "nodeAt t (0 # q) = Some m"
    and al: "nodesAlong t ((0 # q) @ [k]) = nodesAlong t (0 # q) @ [n]" by blast
  from m have c: "0 < length (children t)" by (simp split: if_splits)
  with al have al': "nodesAlong (children t ! 0) (q @ [k]) = nodesAlong (children t ! 0) q @ [n]"
    by simp
  have "climb t (Some [0]) (Some (0 # q @ [k])) (name n @ acc) =
        climb t (Some [0]) (Some (0 # q)) (name m @ ''.'' @ name n @ acc)"
    using m by (simp add: butlast_append)
  also have "\<dots> = Inr (joinDot (map name (nodesAlong (children t ! 0) q)) @ ''.'' @ name n @ acc)"
    by (rule snoc.IH [OF m])
  finally show ?case by (simp add: al' joinDot_snoc)
qed

lemma get_with_parent:
  "get (Model opt (Some par)) path =
     (if nullish (walkPath opt path) then get par path else walkPath opt path)"
  by (simp add: Let_def)

section \<open>Lemmas on the rows of the nodes\<close>

text \<open>The references in row order lead to the nodes in pre-order, and in the tree that
  \<open>getInitialData\<close> builds the node that \<open>getNodeByDataIndex\<close> gives for a row has that
  row as its \<open>dataIndex\<close>.\<close>

lemma childRefs_nodeAt:
  assumes "\<And>c. c \<in> set cs' \<Longrightarrow> map (nodeAt c) (nodeRefs c) = map Some (nodesPreorder c)"
    and "drop k (children t) = cs'"
  shows "map (nodeAt t) (childRefs k cs') = map Some (concat (map nodesPreorder cs'))"
  using assms
proof (induction cs' arbitrary: k)
  case Nil
  then show ?case by simp
next
  case (Cons c rest)
  from Cons.prems(2) have k: "k < length (children t)"
    by (metis drop_all linorder_not_le list.distinct(1))
  from Cons.prems(2) k have ck: "children t ! k = c"
    by (metis Cons_nth_drop_Suc list.inject)
  from Cons.prems(2) k have rest: "drop (Suc k) (children t) = rest"
    by (metis Cons_nth_drop_Suc list.inject)
  have c: "map (nodeAt c) (nodeRefs c) = map Some (nodesPreorder c)"
    by (rule Cons.prems(1)) simp
  have "map (nodeAt t) (map ((#) k) (nodeRefs c)) = map (nodeAt c) (nodeRefs c)"
    using k ck by (simp add: comp_def)
  moreover have "map (nodeAt t) (childRefs (Suc k) rest) = map Some (concat (map nodesPreorder rest))"
    by (rule Cons.IH [OF _ rest]) (simp add: Cons.prems(1))
  ultimately show ?case using c by simp
qed

lemma nodeRefs_nodeAt: "map (nodeAt t) (nodeRefs t) = map Some (nodesPreorder t)"
proof (induction t)
  case (TreeNode n v d i e cs)
  have "map (nodeAt (TreeNode n v d i e cs)) (childRefs 0 cs) =
        map Some (concat (map nodesPreorder cs))"
    by (rule childRefs_nodeAt) (simp_all add: TreeNode.IH)
  then show ?case by simp
qed

lemma buildChildren_dataIndex:
  assumes "\<And>c d i. c \<in> set cs \<Longrightarrow>
             map dataIndex (nodesPreorder (buildHierarchy d i c)) = [i..<i + countNodes c]"
  shows "map dataIndex (concat (map nodesPreorder (buildChildren d i cs))) =
           [i..<i + sum_list (map countNodes cs)]"
  using assms
proof (induction cs arbitrary: i)
  case Nil
  then show ?case by simp
next
  case (Cons c cs)
  let ?s = "sum_list (map countNodes cs)"
  have A: "map dataIndex (nodesPreorder (buildHierarchy d i c)) = [i..<i + countNodes c]"
    by (rule Cons.prems) simp
  have B: "map dataIndex (concat (map nodesPreorder (buildChildren d (i + countNodes c) cs))) =
      [i + countNodes c..<i + countNodes c + ?s]"
    by (rule Cons.IH) (simp add: Cons.prems)
  have "[i..<i + countNodes c + ?s] = [i..<i + countNodes c] @ [i + countNodes c..<i + countNodes c + ?s]"
    by (rule upt_add_eq_append) simp
  then have C: "[i..<i + sum_list (map countNodes (c # cs))] =
      [i..<i + countNodes c] @ [i + countNodes c..<i + countNodes c + ?s]"
    by (simp only: list.map sum_list.Cons add.assoc)
  have D: "map dataIndex (concat (map nodesPreorder (buildChildren d i (c # cs)))) =
      map dataIndex (nodesPreorder (buildHierarchy d i c)) @
      map dataIndex (concat (map nodesPreorder (buildChildren d (i + countNodes c) cs)))"
    by simp
  show ?case by (simp only: A B C D)
qed

lemma buildHierarchy_dataIndex:
  "map dataIndex (nodesPreorder (buildHierarchy d i it)) = [i..<i + countNodes it]"
proof (induction it arbitrary: d i)
  case (ItemOption n v c cs)
  let ?s = "sum_list (map countNodes cs)"
  have M: "map dataIndex (concat (map nodesPreorder (buildChildren (Suc d) (Suc i) cs))) =
          [Suc i..<Suc i + ?s]"
    by (rule buildChildren_dataIndex) (simp add: ItemOption.IH)
  have L: "map dataIndex (nodesPreorder (buildHierarchy d i (ItemOption n v c cs))) =
          i # map dataIndex (concat (map nodesPreorder (buildChildren (Suc d) (Suc i) cs)))"
    by simp
  have E: "i + countNodes (ItemOption n v c cs) = Suc (i + ?s)"
    by simp
  have "[i..<Suc (i + ?s)] = i # [Suc i..<Suc (i + ?s)]"
    by (rule upt_conv_Cons) simp
  then have R: "[i..<i + countNodes (ItemOption n v c cs)] = i # [Suc i..<Suc i + ?s]"
    by (simp only: E add_Suc)
  show ?case by (simp only: L M R)
qed

lemma nodesPreorder_setIsExpand:
  "nodesPreorder (eachNode_setIsExpand cb t) = map (eachNode_setIsExpand cb) (nodesPreorder t)"
proof (induction t)
  case (TreeNode n v d i e cs)
  let ?f = "eachNode_setIsExpand cb"
  from TreeNode.IH have H: "map (nodesPreorder \<circ> ?f) cs = map (map ?f \<circ> nodesPreorder) cs"
    by simp
  have "nodesPreorder (?f (TreeNode n v d i e cs)) =
          ?f (TreeNode n v d i e cs) # concat (map (nodesPreorder \<circ> ?f) cs)"
    by simp
  also have "\<dots> = ?f (TreeNode n v d i e cs) # concat (map (map ?f \<circ> nodesPreorder) cs)"
    by (simp only: H)
  also have "\<dots> = map ?f (nodesPreorder (TreeNode n v d i e cs))"
    by (simp add: map_concat)
  finally show ?case .
qed

lemma getInitialData_preorder_dataIndex:
  "map dataIndex (nodesPreorder (root (getInitialData this option))) =
     [0..<countNodes (virtualRoot option)]"
  using buildHierarchy_dataIndex [of 0 0 "virtualRoot option"]
  by (simp add: root_getInitialData nodesPreorder_setIsExpand comp_def)

lemma getNodeByDataIndex_sound:
  assumes "idx < length (data (getInitialData this option))"
  shows "\<exists>ref node. getNodeByDataIndex (getInitialData this option) idx = Some ref \<and>
           nodeAt (root (getInitialData this option)) ref = Some node \<and>
           dataIndex node = idx"
proof -
  let ?t = "root (getInitialData this option)"
  from assms have i: "idx < countNodes (virtualRoot option)"
    by (simp add: data_getInitialData length_flatten)
  have len: "length (nodesPreorder ?t) = countNodes (virtualRoot option)"
    using arg_cong [OF getInitialData_preorder_dataIndex [of this option], of length] by simp
  have len': "length (nodeRefs ?t) = countNodes (virtualRoot option)"
    using arg_cong [OF nodeRefs_nodeAt [of ?t], of length] len by simp
  from i len' have r: "getNodeByDataIndex (getInitialData this option) idx = Some (nodeRefs ?t ! idx)"
    by (simp add: getNodeByDataIndex_def Let_def)
  have "map (nodeAt ?t) (nodeRefs ?t) ! idx = map Some (nodesPreorder ?t) ! idx"
    by (simp only: nodeRefs_nodeAt)
  with i len len' have n: "nodeAt ?t (nodeRefs ?t ! idx) = Some (nodesPreorder ?t ! idx)"
    by simp
  have "map dataIndex (nodesPreorder ?t) ! idx = [0..<countNodes (virtualRoot option)] ! idx"
    by (simp only: getInitialData_preorder_dataIndex)
  with i len have "dataIndex (nodesPreorder ?t ! idx) = idx" by simp
  with r n show ?thesis by blast
qed

lemma getNodeByDataIndex_beyond:
  assumes "length (data (getInitialData this option)) \<le> idx"
  shows "getNodeByDataIndex (getInitialData this option) idx = None"
proof -
  let ?t = "root (getInitialData this option)"
  have len: "length (nodesPreorder ?t) = countNodes (virtualRoot option)"
    using arg_cong [OF getInitialData_preorder_dataIndex [of this option], of length] by simp
  have "length (nodeRefs ?t) = countNodes (virtualRoot option)"
    using arg_cong [OF nodeRefs_nodeAt [of ?t], of length] len by simp
  with assms show ?thesis
    by (simp add: getNodeByDataIndex_def Let_def data_getInitialData length_flatten)
qed

text \<open>In every tree, a reference that \<open>getNodeByDataIndex\<close> gives leads to a node.\<close>

lemma getNodeByDataIndex_valid:
  assumes "getNodeByDataIndex tree idx = Some ref"
  shows "\<exists>node. nodeAt (root tree) ref = Some node"
proof -
  let ?t = "root tree"
  from assms have i: "idx < length (nodeRefs ?t)" and r: "ref = nodeRefs ?t ! idx"
    by (simp_all add: getNodeByDataIndex_def Let_def split: if_splits)
  have len: "length (nodesPreorder ?t) = length (nodeRefs ?t)"
    using arg_cong [OF nodeRefs_nodeAt [of ?t], of length] by simp
  have "map (nodeAt ?t) (nodeRefs ?t) ! idx = map Some (nodesPreorder ?t) ! idx"
    by (simp only: nodeRefs_nodeAt)
  with i len r have "nodeAt ?t ref = Some (nodesPreorder ?t ! idx)" by simp
  then show ?thesis by blast
qed

section \<open>Initial expansion of the tree\<close>

text \<open>
  C1 (as amended). A node whose originating option item sets \<open>collapsed\<close> to a boolean
  \<open>c\<close> has \<open>isExpand = \<not> c\<close> after \<open>getInitialData\<close>, at every depth; so an explicit
  \<open>collapsed: false\<close> gives \<open>isExpand = True\<close>. The item at a position of the option
  tree is the originating item of the node at the same position: it is the raw data item
  of the node's row.
\<close>

theorem explicit_collapsed_decides_isExpand:
  assumes "itemAt (virtualRoot option) p = Some item"
    and "collapsed item = Some c"
  shows "\<exists>node. nodeAt (root (getInitialData this option)) p = Some node \<and>
           getRawDataItem (data (getInitialData this option)) (dataIndex node) = Some item \<and>
           depth node = length p \<and>
           isExpand node = (\<not> c)"
  using getInitialData_node [OF assms(1), of this] assms(2) by auto

text \<open>On the example chain, B (depth 2, beyond \<open>initialTreeDepth = 0\<close>) is expanded by
  its \<open>collapsed: false\<close>.\<close>

theorem explicit_collapsed_witness:
  "itemAt (virtualRoot chainOptionExplicit) [0, 0] = Some (ItemOption ''B'' ValueNaN (Some False) []) \<and>
   (\<exists>node. nodeAt (root (getInitialData exampleSeriesModel chainOptionExplicit)) [0, 0] = Some node \<and>
            depth node = 2 \<and> isExpand node = True)"
proof -
  have h: "itemAt (virtualRoot chainOptionExplicit) [0, 0] =
             Some (ItemOption ''B'' ValueNaN (Some False) [])"
    by code_simp
  have c: "collapsed (ItemOption ''B'' ValueNaN (Some False) []) = Some False"
    by simp
  from explicit_collapsed_decides_isExpand [OF h c, of exampleSeriesModel]
  obtain node
    where n: "nodeAt (root (getInitialData exampleSeriesModel chainOptionExplicit)) [0, 0] = Some node"
      and d: "depth node = length [0::nat, 0]" and e: "isExpand node = (\<not> False)"
    by blast
  from d e have "depth node = 2" and "isExpand node = True" by simp_all
  with n h show ?thesis by blast
qed

text \<open>The claim as stated adds that an explicit \<open>collapsed: false\<close> behaves as an absent
  \<open>collapsed\<close> does. With \<open>initialTreeDepth = 0\<close> the node B of the chain, at depth 2,
  is expanded when its item says \<open>collapsed: false\<close> and is not when the field is absent.\<close>

theorem explicit_false_differs_from_absent:
  "map_option collapsed (itemAt (virtualRoot chainOptionExplicit) [0, 0]) = Some (Some False) \<and>
   map_option isExpand (nodeAt (root (getInitialData exampleSeriesModel chainOptionExplicit)) [0, 0])
     = Some True \<and>
   map_option collapsed (itemAt (virtualRoot chainOption) [0, 0]) = Some None \<and>
   map_option isExpand (nodeAt (root (getInitialData exampleSeriesModel chainOption)) [0, 0])
     = Some False"
  by code_simp

text \<open>
  C2 (as amended). A node whose originating option item has no \<open>collapsed\<close> field: when
  \<open>expandAndCollapse\<close> is off or \<open>initialTreeDepth >= 0\<close> does not hold (the depth is
  negative, \<open>NaN\<close> or absent), the effective depth is the computed \<open>treeDepth\<close> and
  \<open>isExpand\<close> is true; otherwise \<open>isExpand\<close> is \<open>depth <= initialTreeDepth\<close>. For a
  depth that is a number this is the rule with ``negative'' in place of ``not \<open>>= 0\<close>''.
\<close>

theorem absent_collapsed_isExpand_by_depth:
  assumes "itemAt (virtualRoot option) p = Some item"
    and "collapsed item = None"
  shows "\<exists>node. nodeAt (root (getInitialData this option)) p = Some node \<and>
           getRawDataItem (data (getInitialData this option)) (dataIndex node) = Some item \<and>
           depth node = length p \<and>
           isExpand node =
             (if \<not> expandAndCollapse option \<or> \<not> numGe (initialTreeDepth option) 0 then True
              else depthLe (depth node) (initialTreeDepth option)) \<and>
           (\<forall>k. initialTreeDepth option = ValueNum k \<longrightarrow>
              isExpand node =
                (if \<not> expandAndCollapse option \<or> k < 0 then True else int (depth node) \<le> k)) \<and>
           (toNumber (initialTreeDepth option) = None \<longrightarrow> isExpand node) \<and>
           expandTreeDepth option (treeDepth (root (createTree (virtualRoot option) this lo))) =
             (if \<not> expandAndCollapse option \<or> \<not> numGe (initialTreeDepth option) 0
              then ValueNum (int (treeDepth (root (createTree (virtualRoot option) this lo))))
              else initialTreeDepth option)"
proof -
  from getInitialData_node [OF assms(1), of this] assms(2)
  obtain node where at: "nodeAt (root (getInitialData this option)) p = Some node"
    and d: "depth node = length p"
    and raw: "getRawDataItem (data (getInitialData this option)) (dataIndex node) = Some item"
    and ex: "isExpand node = depthLe (length p)
        (expandTreeDepth option (treeDepth (buildHierarchy 0 0 (virtualRoot option))))"
    by auto
  have full: "depthLe (length p)
      (ValueNum (int (treeDepth (buildHierarchy 0 0 (virtualRoot option)))))"
    using length_le_treeDepth [OF assms(1)] by (simp add: depthLe_def)
  have 1: "isExpand node =
          (if \<not> expandAndCollapse option \<or> \<not> numGe (initialTreeDepth option) 0 then True
           else depthLe (depth node) (initialTreeDepth option))"
    using ex d full by (simp add: expandTreeDepth_def)
  have 2: "\<forall>k. initialTreeDepth option = ValueNum k \<longrightarrow>
      isExpand node =
        (if \<not> expandAndCollapse option \<or> k < 0 then True else int (depth node) \<le> k)"
    using 1 by (auto simp: numGe_def depthLe_def)
  have 3: "toNumber (initialTreeDepth option) = None \<longrightarrow> isExpand node"
    using 1 by (simp add: numGe_def)
  have 4: "expandTreeDepth option (treeDepth (root (createTree (virtualRoot option) this lo))) =
             (if \<not> expandAndCollapse option \<or> \<not> numGe (initialTreeDepth option) 0
              then ValueNum (int (treeDepth (root (createTree (virtualRoot option) this lo))))
              else initialTreeDepth option)"
    by (simp add: expandTreeDepth_def)
  show ?thesis
    by (rule exI [of _ node]) (intro conjI at raw d 1 2 3 4)
qed

text \<open>On the example chain B has no \<open>collapsed\<close> and depth 2, beyond
  \<open>initialTreeDepth = 0\<close>: it is not expanded. With \<open>expandAndCollapse\<close> off, the second
  top-level item of the other example is expanded, and so is B when the chain has no
  \<open>initialTreeDepth\<close>.\<close>

theorem absent_collapsed_witness:
  "itemAt (virtualRoot chainOption) [0, 0] = Some (ItemOption ''B'' (ValueNum 5) None []) \<and>
   (\<exists>node. nodeAt (root (getInitialData exampleSeriesModel chainOption)) [0, 0] = Some node \<and>
            depth node = 2 \<and> isExpand node = False) \<and>
   itemAt (virtualRoot twoRootsOption) [1] = Some (ItemOption ''C'' (ValueNum 7) None []) \<and>
   (\<exists>node. nodeAt (root (getInitialData exampleSeriesModel twoRootsOption)) [1] = Some node \<and>
            depth node = 1 \<and> isExpand node = True) \<and>
   toNumber (initialTreeDepth chainOptionNoDepth) = None \<and>
   (\<exists>node. nodeAt (root (getInitialData exampleSeriesModel chainOptionNoDepth)) [0, 0] = Some node \<and>
            depth node = 2 \<and> isExpand node = True)"
proof -
  have h: "itemAt (virtualRoot chainOption) [0, 0] = Some (ItemOption ''B'' (ValueNum 5) None [])"
    by code_simp
  have c: "collapsed (ItemOption ''B'' (ValueNum 5) None []) = None"
    by simp
  have e: "expandAndCollapse chainOption" "initialTreeDepth chainOption = ValueNum 0"
    by (simp_all add: chainOption_def)
  have h2: "itemAt (virtualRoot twoRootsOption) [1] = Some (ItemOption ''C'' (ValueNum 7) None [])"
    by code_simp
  have c2: "collapsed (ItemOption ''C'' (ValueNum 7) None []) = None"
    by simp
  have e2: "\<not> expandAndCollapse twoRootsOption"
    by (simp add: twoRootsOption_def)
  have h3: "itemAt (virtualRoot chainOptionNoDepth) [0, 0] =
      Some (ItemOption ''B'' (ValueNum 5) None [])"
    by code_simp
  have e3: "toNumber (initialTreeDepth chainOptionNoDepth) = None"
    by (simp add: chainOptionNoDepth_def)
  from absent_collapsed_isExpand_by_depth [OF h c, of exampleSeriesModel Undefined]
  obtain node
    where n: "nodeAt (root (getInitialData exampleSeriesModel chainOption)) [0, 0] = Some node"
      and d: "depth node = length [0::nat, 0]"
      and x: "\<forall>k. initialTreeDepth chainOption = ValueNum k \<longrightarrow>
        isExpand node =
          (if \<not> expandAndCollapse chainOption \<or> k < 0 then True else int (depth node) \<le> k)"
    by (elim exE conjE) (rule that, assumption+)
  from x e have "isExpand node = (int (depth node) \<le> 0)" by simp
  with d have "depth node = 2" and "isExpand node = False" by simp_all
  with n have 1: "\<exists>node.
      nodeAt (root (getInitialData exampleSeriesModel chainOption)) [0, 0] = Some node \<and>
      depth node = 2 \<and> isExpand node = False"
    by blast
  from absent_collapsed_isExpand_by_depth [OF h2 c2, of exampleSeriesModel Undefined]
  obtain node'
    where n': "nodeAt (root (getInitialData exampleSeriesModel twoRootsOption)) [1] = Some node'"
      and d': "depth node' = length [1::nat]"
      and x': "isExpand node' =
        (if \<not> expandAndCollapse twoRootsOption \<or> \<not> numGe (initialTreeDepth twoRootsOption) 0
         then True else depthLe (depth node') (initialTreeDepth twoRootsOption))"
    by (elim exE conjE) (rule that, assumption+)
  from d' x' e2 have "depth node' = 1" and "isExpand node' = True" by simp_all
  with n' have 2: "\<exists>node.
      nodeAt (root (getInitialData exampleSeriesModel twoRootsOption)) [1] = Some node \<and>
      depth node = 1 \<and> isExpand node = True"
    by blast
  from absent_collapsed_isExpand_by_depth [OF h3 c, of exampleSeriesModel Undefined]
  obtain node''
    where n'': "nodeAt (root (getInitialData exampleSeriesModel chainOptionNoDepth)) [0, 0] =
        Some node''"
      and d'': "depth node'' = length [0::nat, 0]"
      and x'': "toNumber (initialTreeDepth chainOptionNoDepth) = None \<longrightarrow> isExpand node''"
    by (elim exE conjE) (rule that, assumption+)
  from d'' x'' e3 have "depth node'' = 2" and "isExpand node'' = True" by simp_all
  with n'' have 3: "\<exists>node.
      nodeAt (root (getInitialData exampleSeriesModel chainOptionNoDepth)) [0, 0] = Some node \<and>
      depth node = 2 \<and> isExpand node = True"
    by blast
  from h h2 e3 1 2 3 show ?thesis by blast
qed

text \<open>The claim as stated has only the cases ``disabled or negative'' and ``otherwise''.
  With \<open>expandAndCollapse\<close> on and \<open>initialTreeDepth\<close> absent or \<open>NaN\<close> the depth is not
  negative, and \<open>depth <= initialTreeDepth\<close> is false for the node B at depth 2; but
  \<open>initialTreeDepth >= 0\<close> is false too, the effective depth is \<open>treeDepth\<close>, and B is
  expanded.\<close>

theorem absent_depth_expands_every_node:
  "expandAndCollapse chainOptionNoDepth \<and>
   \<not> numLess (initialTreeDepth chainOptionNoDepth) 0 \<and>
   map_option collapsed (itemAt (virtualRoot chainOptionNoDepth) [0, 0]) = Some None \<and>
   map_option depth (nodeAt (root (getInitialData exampleSeriesModel chainOptionNoDepth)) [0, 0])
     = Some 2 \<and>
   \<not> depthLe 2 (initialTreeDepth chainOptionNoDepth) \<and>
   map_option isExpand (nodeAt (root (getInitialData exampleSeriesModel chainOptionNoDepth)) [0, 0])
     = Some True \<and>
   expandAndCollapse chainOptionNaNDepth \<and>
   \<not> numLess (initialTreeDepth chainOptionNaNDepth) 0 \<and>
   map_option collapsed (itemAt (virtualRoot chainOptionNaNDepth) [0, 0]) = Some None \<and>
   \<not> depthLe 2 (initialTreeDepth chainOptionNaNDepth) \<and>
   map_option isExpand (nodeAt (root (getInitialData exampleSeriesModel chainOptionNaNDepth)) [0, 0])
     = Some True"
  by code_simp

section \<open>The lines visual resolver: the per-row pass\<close>

text \<open>
  C3. In \<open>dataEach\<close>, for each of \<open>fromSymbol\<close>, \<open>toSymbol\<close>, \<open>fromSymbolSize\<close> and
  \<open>toSymbolSize\<close> with the row's normalized value \<open>v\<close>: the row's entry is written
  exactly when \<open>v\<close> is truthy. A falsy \<open>v\<close> leaves the entry as it was, the row reads
  what it read before the pass, and that is the series-level visual when the row had no
  entry.
\<close>

theorem dataEach_falsy_override_ignored:
  assumes "(key, v) \<in> set (rowOverrides tbl idx)"
  shows "itemVisuals (dataEach tbl idx) idx key =
           (if truthy v then Some v else itemVisuals tbl idx key) \<and>
         getItemVisual (dataEach tbl idx) idx key =
           (if truthy v then v else getItemVisual tbl idx key) \<and>
         (\<not> truthy v \<and> itemVisuals tbl idx key = None \<longrightarrow>
            getItemVisual (dataEach tbl idx) idx key = getVisual tbl key) \<and>
         getVisual (dataEach tbl idx) key = getVisual tbl key"
proof -
  have e: "itemVisuals (dataEach tbl idx) idx key =
      (if truthy v then Some v else itemVisuals tbl idx key)"
    using assms dataEach_fromSymbol [of tbl idx] dataEach_toSymbol [of tbl idx]
      dataEach_fromSymbolSize [of tbl idx] dataEach_toSymbolSize [of tbl idx]
    unfolding rowOverrides_def by auto
  have g: "getItemVisual (dataEach tbl idx) idx key =
      (if truthy v then v else getItemVisual tbl idx key)"
    by (rule getItemVisual_guarded [OF e dataEach_visual])
  have n: "\<not> truthy v \<and> itemVisuals tbl idx key = None \<longrightarrow>
      getItemVisual (dataEach tbl idx) idx key = getVisual tbl key"
    using g getItemVisual_no_entry [of tbl idx key] by simp
  have s: "getVisual (dataEach tbl idx) key = getVisual tbl key"
    by (simp add: getVisual_def dataEach_visual)
  from e g n s show ?thesis by blast
qed

text \<open>The first row of the example series overrides \<open>symbolSize\<close> with 0 and \<open>symbol\<close>
  with the empty string: after the pass the row has no entry of its own and still reads
  the series values.\<close>

theorem dataEach_falsy_override_witness:
  "(''fromSymbolSize'', Num 0) \<in> set (rowOverrides (resultData (reset circleSeries)) 0) \<and>
   (''fromSymbol'', Str []) \<in> set (rowOverrides (resultData (reset circleSeries)) 0) \<and>
   itemVisuals (dataEach (resultData (reset circleSeries)) 0) 0 ''fromSymbolSize'' = None \<and>
   getItemVisual (dataEach (resultData (reset circleSeries)) 0) 0 ''fromSymbolSize'' = Num 10 \<and>
   getItemVisual (dataEach (resultData (reset circleSeries)) 0) 0 ''fromSymbol'' = Str ''circle''"
proof -
  let ?d = "resultData (reset circleSeries)"
  have s: "(''fromSymbolSize'', Num 0) \<in> set (rowOverrides ?d 0)"
    by code_simp
  have t: "(''fromSymbol'', Str []) \<in> set (rowOverrides ?d 0)"
    by code_simp
  have b: "itemVisuals ?d 0 ''fromSymbolSize'' = None"
    "itemVisuals ?d 0 ''fromSymbol'' = None"
    "getVisual ?d ''fromSymbolSize'' = Num 10"
    "getVisual ?d ''fromSymbol'' = Str ''circle''"
    by code_simp+
  from dataEach_falsy_override_ignored [OF s]
  have "itemVisuals (dataEach ?d 0) 0 ''fromSymbolSize'' =
          (if truthy (Num 0) then Some (Num 0) else itemVisuals ?d 0 ''fromSymbolSize'')"
    and "\<not> truthy (Num 0) \<and> itemVisuals ?d 0 ''fromSymbolSize'' = None \<longrightarrow>
          getItemVisual (dataEach ?d 0) 0 ''fromSymbolSize'' = getVisual ?d ''fromSymbolSize''"
    by blast+
  with b(1) b(3) have 1: "itemVisuals (dataEach ?d 0) 0 ''fromSymbolSize'' = None"
    and 2: "getItemVisual (dataEach ?d 0) 0 ''fromSymbolSize'' = Num 10"
    by simp_all
  from dataEach_falsy_override_ignored [OF t]
  have "\<not> truthy (Str []) \<and> itemVisuals ?d 0 ''fromSymbol'' = None \<longrightarrow>
          getItemVisual (dataEach ?d 0) 0 ''fromSymbol'' = getVisual ?d ''fromSymbol''"
    by blast
  with b(2) b(4) have 3: "getItemVisual (dataEach ?d 0) 0 ''fromSymbol'' = Str ''circle''"
    by simp
  from s t 1 2 3 show ?thesis by blast
qed

section \<open>The depth of the tree\<close>

text \<open>
  C4. The \<open>treeDepth\<close> that the first traversal of \<open>getInitialData\<close> computes on the
  tree built from the option is the maximum of \<open>depth\<close> over the nodes reachable from
  the root, a finite set.
\<close>

theorem treeDepth_is_max_depth:
  "finite {n. \<exists>p. nodeAt (root (createTree (virtualRoot option) this lo)) p = Some n} \<and>
   treeDepth (root (createTree (virtualRoot option) this lo)) =
     Max (depth ` {n. \<exists>p. nodeAt (root (createTree (virtualRoot option) this lo)) p = Some n})"
proof -
  let ?t = "root (createTree (virtualRoot option) this lo)"
  have "finite (set (nodesPreorder ?t))" by (rule finite_set)
  then have "finite {n. \<exists>p. nodeAt ?t p = Some n}" by (simp only: set_nodesPreorder)
  then show ?thesis using treeDepth_Max [of ?t] by blast
qed

section \<open>The tooltip\<close>

text \<open>
  C5 (as amended). For a data index whose node lies in the subtree of the first real node
  \<open>tree.root.children[0]\<close>, at the position \<open>q\<close> below it, \<open>formatTooltip\<close> returns the
  HTML-escaped string made of the names on the way from the first real node down to the
  node, joined with a dot, followed by \<open>" : " + value\<close> exactly when the node's value is
  neither \<open>null\<close>, \<open>undefined\<close> nor \<open>NaN\<close>.
\<close>

theorem formatTooltip_below_realRoot:
  assumes "getNodeByDataIndex tree idx = Some (0 # q)"
    and "nodeAt (root tree) (0 # q) = Some node"
  shows "formatTooltip encodeHTML tree idx =
           Inr (encodeHTML (joinDot (map name (nodesAlong (children (root tree) ! 0) q)) @
                            tooltipSuffix (nodeValue node)))"
proof -
  from assms(2) have c: "children (root tree) \<noteq> []" by (auto split: if_splits)
  from climb_realRoot [OF assms(2), of "[]"]
  have "climb (root tree) (Some [0]) (Some (0 # q)) (name node) =
          Inr (joinDot (map name (nodesAlong (children (root tree) ! 0) q)))" by simp
  with assms c show ?thesis
    by (simp add: formatTooltip_def Let_def tooltipSuffix_code)
qed

text \<open>The chain root, A, B: with B's value 5 the tooltip of B is \<open>A.B : 5\<close>, with the
  value \<open>NaN\<close> it is \<open>A.B\<close>.\<close>

theorem formatTooltip_witness:
  "getNodeByDataIndex (getInitialData exampleSeriesModel chainOption) 2 = Some [0, 0] \<and>
   formatTooltip id (getInitialData exampleSeriesModel chainOption) 2 = Inr ''A.B : 5'' \<and>
   formatTooltip id (getInitialData exampleSeriesModel chainOptionExplicit) 2 = Inr ''A.B''"
proof -
  let ?T = "getInitialData exampleSeriesModel chainOption"
  let ?U = "getInitialData exampleSeriesModel chainOptionExplicit"
  have r: "getNodeByDataIndex ?T 2 = Some [0, 0]" by code_simp
  have n: "nodeAt (root ?T) [0, 0] = Some (TreeNode ''B'' (ValueNum 5) 2 2 False [])"
    by code_simp
  have s: "joinDot (map name (nodesAlong (children (root ?T) ! 0) [0])) @
           tooltipSuffix (nodeValue (TreeNode ''B'' (ValueNum 5) 2 2 False [])) = ''A.B : 5''"
    by code_simp
  have r': "getNodeByDataIndex ?U 2 = Some [0, 0]" by code_simp
  have n': "nodeAt (root ?U) [0, 0] = Some (TreeNode ''B'' ValueNaN 2 2 True [])"
    by code_simp
  have s': "joinDot (map name (nodesAlong (children (root ?U) ! 0) [0])) @
           tooltipSuffix (nodeValue (TreeNode ''B'' ValueNaN 2 2 True [])) = ''A.B''"
    by code_simp
  from formatTooltip_below_realRoot [OF r n, of id] s
  have 1: "formatTooltip id ?T 2 = Inr ''A.B : 5''" by simp
  from formatTooltip_below_realRoot [OF r' n', of id] s'
  have 2: "formatTooltip id ?U 2 = Inr ''A.B''" by simp
  from r 1 2 show ?thesis by blast
qed

text \<open>The claim as stated covers every data index. Row 0 is the synthetic root: it is
  not the first real node and has no parent, so the loop reads \<open>name\<close> of \<open>undefined\<close>.
  The same happens, one step later, for a second item at the top level.\<close>

theorem formatTooltip_synthetic_root_fails:
  "formatTooltip id (getInitialData exampleSeriesModel chainOption) 0 = Inl TypeError \<and>
   formatTooltip id (getInitialData exampleSeriesModel twoRootsOption) 2 = Inl TypeError"
  by code_simp

section \<open>The leaves' model\<close>

text \<open>
  C6. The function installed in place of \<open>getItemModel\<close>: for a node without children
  or with \<open>isExpand\<close> false, the item's model is returned with the leaves' model as its
  parent, so a property that the item's own option does not give is resolved by the
  leaves' model; the leaves' model of the tree made by \<open>getInitialData\<close> answers from the
  leaves' option first and from the series model after it. For every other node the
  item's model is returned as the original method gave it.
\<close>

theorem leaves_model_is_parent:
  assumes "getNodeByDataIndex tree idx = Some ref"
    and "nodeAt (root tree) ref = Some node"
  shows "(children node = [] \<or> \<not> isExpand node \<longrightarrow>
            beforeLink tree original idx =
              Inr (Model (modelOption (original idx)) (Some (leavesModel tree))) \<and>
            get (Model (modelOption (original idx)) (Some (leavesModel tree))) path =
              (if nullish (walkPath (modelOption (original idx)) path)
               then get (leavesModel tree) path
               else walkPath (modelOption (original idx)) path)) \<and>
         (children node \<noteq> [] \<and> isExpand node \<longrightarrow>
            beforeLink tree original idx = Inr (original idx)) \<and>
         get (leavesModel (getInitialData this option)) path =
           (if nullish (walkPath (if truthy (leaves option) then leaves option else Obj []) path)
            then get this path
            else walkPath (if truthy (leaves option) then leaves option else Obj []) path)"
proof -
  have "leavesModel (getInitialData this option) =
          Model (if truthy (leaves option) then leaves option else Obj []) (Some this)"
    by (simp add: getInitialData_def Let_def)
  then have "get (leavesModel (getInitialData this option)) path =
           (if nullish (walkPath (if truthy (leaves option) then leaves option else Obj []) path)
            then get this path
            else walkPath (if truthy (leaves option) then leaves option else Obj []) path)"
    by (simp only: get_with_parent)
  moreover have "get (Model (modelOption (original idx)) (Some (leavesModel tree))) path =
              (if nullish (walkPath (modelOption (original idx)) path)
               then get (leavesModel tree) path
               else walkPath (modelOption (original idx)) path)"
    by (rule get_with_parent)
  moreover from assms have "children node = [] \<or> \<not> isExpand node \<longrightarrow>
            beforeLink tree original idx =
              Inr (Model (modelOption (original idx)) (Some (leavesModel tree)))"
    by (simp add: beforeLink_def Let_def)
  moreover from assms have "children node \<noteq> [] \<and> isExpand node \<longrightarrow>
            beforeLink tree original idx = Inr (original idx)"
    by (simp add: beforeLink_def Let_def)
  ultimately show ?thesis by blast
qed

text \<open>On the example chain (series: \<open>label.show = true\<close>, leaves: \<open>label.show = false\<close>)
  the leaf B resolves \<open>label.show\<close> from the leaves and \<open>label.color\<close>, which the
  leaves do not give, from the series; the root, expanded and with a child, keeps its
  model.\<close>

theorem leaves_model_witness:
  "(\<exists>m. beforeLink (getInitialData exampleSeriesModel chainOption)
           (\<lambda>i. Model (Obj []) (Some exampleSeriesModel)) 2 = Inr m \<and>
         get m [''label'', ''show''] = Boolean False \<and>
         get m [''label'', ''color''] = Str ''#555'') \<and>
   beforeLink (getInitialData exampleSeriesModel chainOption)
     (\<lambda>i. Model (Obj []) (Some exampleSeriesModel)) 0 = Inr (Model (Obj []) (Some exampleSeriesModel))"
proof -
  let ?T = "getInitialData exampleSeriesModel chainOption"
  let ?orig = "\<lambda>i::nat. Model (Obj []) (Some exampleSeriesModel)"
  have r: "getNodeByDataIndex ?T 2 = Some [0, 0]" by code_simp
  have n: "nodeAt (root ?T) [0, 0] = Some (TreeNode ''B'' (ValueNum 5) 2 2 False [])"
    by code_simp
  have r0: "getNodeByDataIndex ?T 0 = Some []" by code_simp
  have n0: "nodeAt (root ?T) [] = Some (root ?T)" by simp
  have c0: "children (root ?T) \<noteq> []" "isExpand (root ?T)" by code_simp+
  have g: "get (Model (Obj []) (Some (leavesModel ?T))) [''label'', ''show''] = Boolean False"
    "get (Model (Obj []) (Some (leavesModel ?T))) [''label'', ''color''] = Str ''#555''"
    by code_simp+
  from leaves_model_is_parent [OF r n, of ?orig "[''label'', ''show'']" exampleSeriesModel chainOption]
  have "beforeLink ?T ?orig 2 = Inr (Model (Obj []) (Some (leavesModel ?T)))" by simp
  with g have 1: "\<exists>m. beforeLink ?T ?orig 2 = Inr m \<and>
         get m [''label'', ''show''] = Boolean False \<and>
         get m [''label'', ''color''] = Str ''#555''" by blast
  from leaves_model_is_parent [OF r0 n0, of ?orig "[''label'', ''show'']" exampleSeriesModel chainOption] c0
  have 2: "beforeLink ?T ?orig 0 = Inr (Model (Obj []) (Some exampleSeriesModel))" by simp
  from 1 2 show ?thesis by blast
qed

section \<open>The lines visual resolver: the series level\<close>

text \<open>
  C7. \<open>normalize\<close> turns a value that is not an array into the pair of that value
  twice and returns an array as it is. So a series whose \<open>symbol\<close> is not an array gets
  that value as \<open>fromSymbol\<close> and as \<open>toSymbol\<close>, and a series with the \<open>symbol\<close>
  \<open>[x, y]\<close> gets \<open>fromSymbol = x\<close> and \<open>toSymbol = y\<close>. \<open>reset\<close> writes all five
  series-level visuals, whatever the options are.
\<close>

theorem normalize_and_series_visuals:
  "normalize_lines (Arr xs) = Arr xs \<and>
   (\<not> isArray a \<longrightarrow> normalize_lines a = Arr [a, a]) \<and>
   (\<not> isArray (get (seriesOptionModel sm) [''symbol'']) \<longrightarrow>
      visual (resultData (reset sm)) ''fromSymbol'' = Some (get (seriesOptionModel sm) [''symbol'']) \<and>
      visual (resultData (reset sm)) ''toSymbol'' = Some (get (seriesOptionModel sm) [''symbol''])) \<and>
   (get (seriesOptionModel sm) [''symbol''] = Arr [x, y] \<longrightarrow>
      visual (resultData (reset sm)) ''fromSymbol'' = Some x \<and>
      visual (resultData (reset sm)) ''toSymbol'' = Some y) \<and>
   visual (resultData (reset sm)) ''fromSymbol'' =
     Some (jsIndex (normalize_lines (get (seriesOptionModel sm) [''symbol''])) 0) \<and>
   visual (resultData (reset sm)) ''toSymbol'' =
     Some (jsIndex (normalize_lines (get (seriesOptionModel sm) [''symbol''])) 1) \<and>
   visual (resultData (reset sm)) ''fromSymbolSize'' =
     Some (jsIndex (normalize_lines (get (seriesOptionModel sm) [''symbolSize''])) 0) \<and>
   visual (resultData (reset sm)) ''toSymbolSize'' =
     Some (jsIndex (normalize_lines (get (seriesOptionModel sm) [''symbolSize''])) 1) \<and>
   visual (resultData (reset sm)) ''opacity'' = Some (get (seriesOptionModel sm) opacityQuery)"
proof -
  let ?s = "get (seriesOptionModel sm) [''symbol'']"
  have f: "visual (resultData (reset sm)) ''fromSymbol'' = Some (jsIndex (normalize_lines ?s) 0)"
    by (simp add: reset_visual)
  have t: "visual (resultData (reset sm)) ''toSymbol'' = Some (jsIndex (normalize_lines ?s) 1)"
    by (simp add: reset_visual)
  have fs: "visual (resultData (reset sm)) ''fromSymbolSize'' =
      Some (jsIndex (normalize_lines (get (seriesOptionModel sm) [''symbolSize''])) 0)"
    by (simp add: reset_visual)
  have ts: "visual (resultData (reset sm)) ''toSymbolSize'' =
      Some (jsIndex (normalize_lines (get (seriesOptionModel sm) [''symbolSize''])) 1)"
    by (simp add: reset_visual)
  have op: "visual (resultData (reset sm)) ''opacity'' = Some (get (seriesOptionModel sm) opacityQuery)"
    by (simp add: reset_visual)
  have n1: "normalize_lines (Arr xs) = Arr xs"
    by (simp add: normalize_lines_def)
  have n2: "\<not> isArray a \<longrightarrow> normalize_lines a = Arr [a, a]"
    by (simp add: normalize_lines_def)
  have sc: "\<not> isArray ?s \<longrightarrow>
      visual (resultData (reset sm)) ''fromSymbol'' = Some ?s \<and>
      visual (resultData (reset sm)) ''toSymbol'' = Some ?s"
    by (simp add: f t normalize_lines_def)
  have pr: "?s = Arr [x, y] \<longrightarrow>
      visual (resultData (reset sm)) ''fromSymbol'' = Some x \<and>
      visual (resultData (reset sm)) ''toSymbol'' = Some y"
    by (simp add: f t normalize_lines_def)
  from n1 n2 sc pr f t fs ts op show ?thesis by blast
qed

text \<open>The series with \<open>symbol: 'circle'\<close> and the series with \<open>symbol: ['a', 'b']\<close>.\<close>

theorem normalize_and_series_visuals_witness:
  "normalize_lines (Str ''circle'') = Arr [Str ''circle'', Str ''circle''] \<and>
   visual (resultData (reset circleSeries)) ''fromSymbol'' = Some (Str ''circle'') \<and>
   visual (resultData (reset circleSeries)) ''toSymbol'' = Some (Str ''circle'') \<and>
   visual (resultData (reset pairSeries)) ''fromSymbol'' = Some (Str ''a'') \<and>
   visual (resultData (reset pairSeries)) ''toSymbol'' = Some (Str ''b'') \<and>
   visual (resultData (reset pairSeries)) ''fromSymbolSize'' = Some Undefined \<and>
   visual (resultData (reset pairSeries)) ''opacity'' = Some (Num 1)"
proof -
  have c: "get (seriesOptionModel circleSeries) [''symbol''] = Str ''circle''"
    by code_simp
  have p: "get (seriesOptionModel pairSeries) [''symbol''] = Arr [Str ''a'', Str ''b'']"
    by code_simp
  have z: "jsIndex (normalize_lines (get (seriesOptionModel pairSeries) [''symbolSize''])) 0 = Undefined"
    by code_simp
  have o: "get (seriesOptionModel pairSeries) opacityQuery = Num 1"
    by code_simp
  from normalize_and_series_visuals
    [of "[]" "Str ''circle''" circleSeries "Str ''a''" "Str ''b''"] c
  have 1: "normalize_lines (Str ''circle'') = Arr [Str ''circle'', Str ''circle''] \<and>
     visual (resultData (reset circleSeries)) ''fromSymbol'' = Some (Str ''circle'') \<and>
     visual (resultData (reset circleSeries)) ''toSymbol'' = Some (Str ''circle'')"
    by simp
  from normalize_and_series_visuals
    [of "[]" "Str ''circle''" pairSeries "Str ''a''" "Str ''b''"] p z o
  have 2: "visual (resultData (reset pairSeries)) ''fromSymbol'' = Some (Str ''a'') \<and>
     visual (resultData (reset pairSeries)) ''toSymbol'' = Some (Str ''b'') \<and>
     visual (resultData (reset pairSeries)) ''fromSymbolSize'' = Some Undefined \<and>
     visual (resultData (reset pairSeries)) ''opacity'' = Some (Num 1)"
    by simp
  from 1 2 show ?thesis by blast
qed

text \<open>
  C8. \<open>reset\<close> returns the per-row callback \<open>dataEach\<close> exactly when the data table's
  flag \<open>hasItemOption\<close> is set, and \<open>null\<close> exactly when it is not.
\<close>

theorem reset_returns_dataEach_iff_hasItemOption:
  "(resultDataEach (reset sm) = Some dataEach) = hasItemOption (seriesData sm) \<and>
   (resultDataEach (reset sm) = None) = (\<not> hasItemOption (seriesData sm))"
  by (simp add: reset_def Let_def)

text \<open>
  C9 (as amended). In \<open>dataEach\<close>, for each of \<open>fromSymbol\<close>, \<open>toSymbol\<close>,
  \<open>fromSymbolSize\<close> and \<open>toSymbolSize\<close> with the row's own normalized value \<open>v\<close>: the
  row's entry becomes \<open>v\<close> when \<open>v\<close> is truthy and stays as it was otherwise, and a row
  without an entry then reads the series-level visual. The row's \<open>opacity\<close> is written on
  every pass, with whatever the item's model resolves \<open>lineStyle.opacity\<close> to
  (\<open>undefined\<close> included); the row reads that value, or the series-level one when it is
  \<open>null\<close> or \<open>undefined\<close>. No other key of the row, no other row and no series-level
  visual changes.
\<close>

theorem dataEach_write_invariant:
  "((key, v) \<in> set (rowOverrides tbl idx) \<longrightarrow>
      itemVisuals (dataEach tbl idx) idx key =
        (if truthy v then Some v else itemVisuals tbl idx key) \<and>
      getItemVisual (dataEach tbl idx) idx key =
        (if truthy v then v else getItemVisual tbl idx key) \<and>
      (\<not> truthy v \<and> itemVisuals tbl idx key = None \<longrightarrow>
         getItemVisual (dataEach tbl idx) idx key = getVisual tbl key)) \<and>
   itemVisuals (dataEach tbl idx) idx ''opacity'' =
     Some (get (getItemModel tbl idx) opacityQuery) \<and>
   getItemVisual (dataEach tbl idx) idx ''opacity'' =
     (if nullish (get (getItemModel tbl idx) opacityQuery) then getVisual tbl ''opacity''
      else get (getItemModel tbl idx) opacityQuery) \<and>
   (key \<notin> {''fromSymbol'', ''toSymbol'', ''fromSymbolSize'', ''toSymbolSize'', ''opacity''} \<longrightarrow>
      itemVisuals (dataEach tbl idx) idx key = itemVisuals tbl idx key) \<and>
   (j \<noteq> idx \<longrightarrow> itemVisuals (dataEach tbl idx) j = itemVisuals tbl j) \<and>
   visual (dataEach tbl idx) = visual tbl"
proof -
  let ?o = "get (getItemModel tbl idx) opacityQuery"
  have w: "(key, v) \<in> set (rowOverrides tbl idx) \<longrightarrow>
      itemVisuals (dataEach tbl idx) idx key =
        (if truthy v then Some v else itemVisuals tbl idx key) \<and>
      getItemVisual (dataEach tbl idx) idx key =
        (if truthy v then v else getItemVisual tbl idx key) \<and>
      (\<not> truthy v \<and> itemVisuals tbl idx key = None \<longrightarrow>
         getItemVisual (dataEach tbl idx) idx key = getVisual tbl key)"
  proof
    assume m: "(key, v) \<in> set (rowOverrides tbl idx)"
    have e: "itemVisuals (dataEach tbl idx) idx key =
        (if truthy v then Some v else itemVisuals tbl idx key)"
      using m dataEach_fromSymbol [of tbl idx] dataEach_toSymbol [of tbl idx]
        dataEach_fromSymbolSize [of tbl idx] dataEach_toSymbolSize [of tbl idx]
      unfolding rowOverrides_def by auto
    have g: "getItemVisual (dataEach tbl idx) idx key =
        (if truthy v then v else getItemVisual tbl idx key)"
      by (rule getItemVisual_guarded [OF e dataEach_visual])
    have n: "\<not> truthy v \<and> itemVisuals tbl idx key = None \<longrightarrow>
        getItemVisual (dataEach tbl idx) idx key = getVisual tbl key"
      using g getItemVisual_no_entry [of tbl idx key] by simp
    from e g n show "itemVisuals (dataEach tbl idx) idx key =
        (if truthy v then Some v else itemVisuals tbl idx key) \<and>
      getItemVisual (dataEach tbl idx) idx key =
        (if truthy v then v else getItemVisual tbl idx key) \<and>
      (\<not> truthy v \<and> itemVisuals tbl idx key = None \<longrightarrow>
         getItemVisual (dataEach tbl idx) idx key = getVisual tbl key)"
      by (intro conjI)
  qed
  have gv: "getVisual (dataEach tbl idx) ''opacity'' = getVisual tbl ''opacity''"
    by (simp add: getVisual_def dataEach_visual)
  have r: "getItemVisual (dataEach tbl idx) idx ''opacity'' =
      (if nullish ?o then getVisual tbl ''opacity'' else ?o)"
    by (simp add: getItemVisual_def dataEach_opacity gv)
  have o: "key \<notin> {''fromSymbol'', ''toSymbol'', ''fromSymbolSize'', ''toSymbolSize'', ''opacity''} \<longrightarrow>
      itemVisuals (dataEach tbl idx) idx key = itemVisuals tbl idx key"
    using dataEach_other_key [of key tbl idx] by simp
  have f: "j \<noteq> idx \<longrightarrow> itemVisuals (dataEach tbl idx) j = itemVisuals tbl j"
    using dataEach_other_row [of j idx tbl] by simp
  show ?thesis
    by (intro conjI w dataEach_opacity r o f dataEach_visual)
qed

text \<open>The second row of the example series has \<open>symbolSize: [4, 0]\<close>: its
  \<open>fromSymbolSize\<close> becomes 4, its \<open>toSymbolSize\<close> is not written and reads the series
  value 10, and the first row is left alone.\<close>

theorem dataEach_write_invariant_witness:
  "(''fromSymbolSize'', Num 4) \<in> set (rowOverrides (resultData (reset circleSeries)) 1) \<and>
   (''toSymbolSize'', Num 0) \<in> set (rowOverrides (resultData (reset circleSeries)) 1) \<and>
   itemVisuals (dataEach (resultData (reset circleSeries)) 1) 1 ''fromSymbolSize'' = Some (Num 4) \<and>
   itemVisuals (dataEach (resultData (reset circleSeries)) 1) 1 ''toSymbolSize'' = None \<and>
   getItemVisual (dataEach (resultData (reset circleSeries)) 1) 1 ''toSymbolSize'' = Num 10 \<and>
   itemVisuals (dataEach (resultData (reset circleSeries)) 1) 0 =
     itemVisuals (resultData (reset circleSeries)) 0"
proof -
  let ?d = "resultData (reset circleSeries)"
  have m: "(''fromSymbolSize'', Num 4) \<in> set (rowOverrides ?d 1)" by code_simp
  have m': "(''toSymbolSize'', Num 0) \<in> set (rowOverrides ?d 1)" by code_simp
  have b: "itemVisuals ?d 1 ''toSymbolSize'' = None" by code_simp
  have g: "getVisual ?d ''toSymbolSize'' = Num 10" by code_simp
  from dataEach_write_invariant [of "''fromSymbolSize''" "Num 4" ?d 1 0] m
  have 1: "itemVisuals (dataEach ?d 1) 1 ''fromSymbolSize'' = Some (Num 4)"
    and 4: "itemVisuals (dataEach ?d 1) 0 = itemVisuals ?d 0"
    by simp_all
  from dataEach_write_invariant [of "''toSymbolSize''" "Num 0" ?d 1 0] m'
  have "itemVisuals (dataEach ?d 1) 1 ''toSymbolSize'' =
          (if truthy (Num 0) then Some (Num 0) else itemVisuals ?d 1 ''toSymbolSize'')"
    and "\<not> truthy (Num 0) \<and> itemVisuals ?d 1 ''toSymbolSize'' = None \<longrightarrow>
          getItemVisual (dataEach ?d 1) 1 ''toSymbolSize'' = getVisual ?d ''toSymbolSize''"
    by blast+
  with b g have 2: "itemVisuals (dataEach ?d 1) 1 ''toSymbolSize'' = None"
    and 3: "getItemVisual (dataEach ?d 1) 1 ''toSymbolSize'' = Num 10"
    by simp_all
  from m m' 1 2 3 4 show ?thesis by (intro conjI)
qed

text \<open>The claim as stated takes \<open>opacity\<close> with the four symbol attributes. The first
  row of the example series has no \<open>lineStyle.opacity\<close>, and neither has the series:
  the pass writes \<open>undefined\<close> into the row all the same.\<close>

theorem dataEach_writes_undefined_opacity:
  "hasItemOption (resultData (reset circleSeries)) \<and>
   get (getItemModel (resultData (reset circleSeries)) 0) opacityQuery = Undefined \<and>
   itemVisuals (resultData (reset circleSeries)) 0 ''opacity'' = None \<and>
   itemVisuals (dataEach (resultData (reset circleSeries)) 0) 0 ''opacity'' = Some Undefined"
  by code_simp

section \<open>The orientation of the tree\<close>

text \<open>
  C10. \<open>getOrient\<close> answers \<open>LR\<close> for the configured \<open>horizontal\<close>, \<open>TB\<close> for
  \<open>vertical\<close>, and the configured value itself in every other case.
\<close>

theorem getOrient_backward_compatible:
  "getOrient (Str ''horizontal'') = Str ''LR'' \<and>
   getOrient (Str ''vertical'') = Str ''TB'' \<and>
   (orient \<noteq> Str ''horizontal'' \<and> orient \<noteq> Str ''vertical'' \<longrightarrow> getOrient orient = orient)"
  by (simp add: getOrient_def)

theorem getOrient_witness:
  "Str ''RL'' \<noteq> Str ''horizontal'' \<and> Str ''RL'' \<noteq> Str ''vertical'' \<and>
   getOrient (Str ''RL'') = Str ''RL'' \<and> getOrient Undefined = Undefined"
  using getOrient_backward_compatible [of "Str ''RL''"]
    getOrient_backward_compatible [of Undefined]
  by simp

end
